theory Spec2Isabelle
  imports Complex_Main
begin

section \<open>Configuration and colours (metarthread.py, lines 22-72)\<close>

text \<open>
  A colour is the triple written to a NeoPixel position. The module-level constants of
  the script that the modelled functions read are collected in one record, so that
  statements can range over every setting; \<open>default_config\<close> holds the values the
  script ships with.
\<close>

type_synonym color = "nat \<times> nat \<times> nat"

definition COLOR_VFR :: color where "COLOR_VFR = (255, 0, 0)"
definition COLOR_MVFR :: color where "COLOR_MVFR = (0, 0, 255)"
definition COLOR_IFR :: color where "COLOR_IFR = (0, 255, 0)"
definition COLOR_LIFR :: color where "COLOR_LIFR = (0, 125, 125)"
definition COLOR_CLEAR :: color where "COLOR_CLEAR = (0, 0, 0)"
definition COLOR_LIGHTNING :: color where "COLOR_LIGHTNING = (255, 255, 255)"

record config =
  LED_COUNT :: nat
  ACTIVATE_WINDCONDITION_ANIMATION :: bool
  WIND_BLINK_THRESHOLD :: int
  ALWAYS_BLINK_FOR_GUSTS :: bool
  BLINK_SPEED :: rat
  REFRESH_TIME_SECONDS :: rat
  DISPLAY_ROTATION_SPEED :: rat
  FAST_BLINK_DISPLAYED_STATION :: bool
  FAST_BLINK_SPEED :: rat

definition default_config :: config where
  "default_config =
     \<lparr> LED_COUNT = 50,
       ACTIVATE_WINDCONDITION_ANIMATION = True,
       WIND_BLINK_THRESHOLD = 25,
       ALWAYS_BLINK_FOR_GUSTS = False,
       BLINK_SPEED = 2,
       REFRESH_TIME_SECONDS = 1800,
       DISPLAY_ROTATION_SPEED = 5,
       FAST_BLINK_DISPLAYED_STATION = True,
       FAST_BLINK_SPEED = 1 / 10 \<rparr>"

definition DONTSTOP :: int where "DONTSTOP = - 1"

datatype py_error =
    ZeroDivisionError
  | ValueError
  | IndexError
  | AttributeError
  | UnboundLocalError
  | URLError
  | ParseError

section \<open>Python arithmetic used by the script\<close>

text \<open>
  Seconds are Python floats in the script. They are modelled by exact rationals: the
  rounding error of a float division is not represented. \<open>py_int\<close> is \<open>int()\<close> on a
  float (truncation towards zero), \<open>py_range\<close> is \<open>range(n)\<close> (empty for \<open>n \<le> 0\<close>),
  \<open>py_round\<close> is \<open>round()\<close> (ties go to the even neighbour).
\<close>

definition py_int :: "rat \<Rightarrow> int" where
  "py_int x = (if 0 \<le> x then \<lfloor>x\<rfloor> else \<lceil>x\<rceil>)"

definition py_range :: "int \<Rightarrow> nat list" where
  "py_range n = [0 ..< nat n]"

definition py_round :: "rat \<Rightarrow> int" where
  "py_round x =
     (let f = \<lfloor>x\<rfloor>; d = x - of_int f
      in if d < 1 / 2 then f
         else if 1 / 2 < d then f + 1
         else if even f then f else f + 1)"

section \<open>The blink task \<open>blinkme\<close> (lines 99-112)\<close>

text \<open>
  What a task does is recorded as the list of its calls on the strip and on \<open>sleep\<close>,
  together with how it ended. The global \<open>STOPFLAG\<close> is written by the main thread
  while the task runs, so the task receives it as a function \<open>stopflag\<close> of the time
  elapsed since the script started; the task starts at \<open>t0\<close> and its own clock
  advances by the durations it sleeps.
\<close>

datatype event = SetPixel nat color | Show | Sleep rat

datatype outcome = Returned | Raised py_error

text \<open>
  One pass of the \<open>for i in range(numblinks)\<close> loop per element of the index list.
  \<open>pixels[pixelnum] = ...\<close> raises IndexError outside the strip and \<open>sleep\<close> raises
  ValueError on a negative duration. The flag is read after the second sleep.
\<close>

fun blink_loop ::
  "config \<Rightarrow> nat \<Rightarrow> color \<Rightarrow> rat \<Rightarrow> (rat \<Rightarrow> int) \<Rightarrow> rat \<Rightarrow> nat list \<Rightarrow> event list \<times> outcome"
where
  "blink_loop cfg pixelnum color blinkrate stopflag t [] = ([], Returned)"
| "blink_loop cfg pixelnum color blinkrate stopflag t (i # rest) =
     (if LED_COUNT cfg \<le> pixelnum then ([], Raised IndexError)
      else if blinkrate / 2 < 0
        then ([SetPixel pixelnum COLOR_CLEAR, Show], Raised ValueError)
      else
        let body = [SetPixel pixelnum COLOR_CLEAR, Show, Sleep (blinkrate / 2),
                    SetPixel pixelnum color, Show, Sleep (blinkrate / 2)];
            t' = t + blinkrate / 2 + blinkrate / 2
        in if stopflag t' = int pixelnum then (body, Returned)
           else (case blink_loop cfg pixelnum color blinkrate stopflag t' rest of
                   (evs, res) \<Rightarrow> (body @ evs, res)))"

definition blinkme ::
  "config \<Rightarrow> nat \<Rightarrow> color \<Rightarrow> rat \<Rightarrow> rat \<Rightarrow> (rat \<Rightarrow> int) \<Rightarrow> rat \<Rightarrow> event list \<times> outcome"
where
  "blinkme cfg pixelnum color time blinkrate stopflag t0 =
     (if blinkrate = 0 then ([], Raised ZeroDivisionError)
      else blink_loop cfg pixelnum color blinkrate stopflag t0
             (py_range (py_int (time / blinkrate))))"

text \<open>Readings of a trace: the writes to one position, and the time slept.\<close>

fun writes_to :: "nat \<Rightarrow> event list \<Rightarrow> color list" where
  "writes_to p [] = []"
| "writes_to p (SetPixel q c # evs) = (if q = p then c # writes_to p evs else writes_to p evs)"
| "writes_to p (e # evs) = writes_to p evs"

fun slept :: "event list \<Rightarrow> rat" where
  "slept [] = 0"
| "slept (Sleep d # evs) = d + slept evs"
| "slept (e # evs) = slept evs"

section \<open>Fetching and classifying: \<open>get_weather\<close> (lines 166-231)\<close>

text \<open>
  One \<open>METAR\<close> element of the feed, with each child element the loop looks for:
  \<open>None\<close> when \<open>metar.find(...)\<close> finds nothing, otherwise the value its text parses
  to. The response as a whole is either the error raised by \<open>urlopen\<close>, \<open>read\<close> or
  \<open>ET.fromstring\<close>, or the elements in document order.
\<close>

type_synonym timestamp = int

record metar =
  station_id :: "string option"
  flight_category :: "string option"
  wind_gust_kt :: "int option"
  wind_speed_kt :: "int option"
  wind_dir_degrees :: "string option"
  temp_c :: "rat option"
  dewpoint_c :: "rat option"
  visibility_statute_mi :: "rat option"
  altim_in_hg :: "rat option"
  wx_string :: "string option"
  observation_time :: "timestamp option"
  sky_condition :: "(string option \<times> int option) list"
  raw_text :: "string option"

record condition =
  flightCategory :: string
  windDir :: string
  windSpeed :: int
  windGustSpeed :: int
  windGust :: bool
  vis :: int
  obs :: string
  tempC :: int
  dewpointC :: int
  altimHg :: rat
  lightning :: bool
  skyConditions :: "(string option \<times> int) list"
  obsTime :: timestamp

text \<open>
  What the function prints and logs. The text of the per-station log line is not
  modelled; the entry keeps the station and the values that are formatted into it.
\<close>

datatype emitted = Print string | LogInfo string | LogStation string condition

text \<open>
  The variables that live across iterations of the loop over the feed. \<open>obsTime\<close> is a
  local of \<open>get_weather\<close> that no statement before the loop assigns: it is unbound
  (\<open>None\<close>) until an iteration finds an \<open>observation_time\<close> element.
\<close>

record gw_state =
  gw_conditionDict :: "string \<rightharpoonup> condition"
  gw_stationList :: "string list"
  gw_obsTime :: "timestamp option"
  gw_out :: "emitted list"

fun starts_with :: "string \<Rightarrow> string \<Rightarrow> bool" where
  "starts_with s [] = True"
| "starts_with [] (c # cs) = False"
| "starts_with (d # ds) (c # cs) = (d = c \<and> starts_with ds cs)"

text \<open>\<open>py_contains s sub\<close> is \<open>s.find(sub) != -1\<close>.\<close>

fun py_contains :: "string \<Rightarrow> string \<Rightarrow> bool" where
  "py_contains [] sub = (sub = [])"
| "py_contains (c # cs) sub = (starts_with (c # cs) sub \<or> py_contains cs sub)"

fun py_join :: "string \<Rightarrow> string list \<Rightarrow> string" where
  "py_join sep [] = []"
| "py_join sep [x] = x"
| "py_join sep (x # y # xs) = x @ sep @ py_join sep (y # xs)"

definition sky_layer :: "string option \<times> int option \<Rightarrow> string option \<times> int" where
  "sky_layer l = (fst l, (case snd l of None \<Rightarrow> 0 | Some ft \<Rightarrow> ft))"

text \<open>
  The body of \<open>for metar in root.iter('METAR')\<close>, lines 179-230, in the order of the
  source: the station identifier is read first (\<open>.text\<close> of a missing element raises
  AttributeError), a record without flight category is skipped with a printed line, the
  optional fields overwrite their defaults, the line is logged, and the dictionary entry
  is built last (where reading an unbound \<open>obsTime\<close> raises UnboundLocalError).
  The locals of the source carry a prime here, to keep them apart from the keys of the
  entry. \<open>round(x, 2)\<close> is taken as \<open>py_round (x * 100) / 100\<close>.
\<close>

definition metar_step :: "config \<Rightarrow> gw_state \<Rightarrow> metar \<Rightarrow> gw_state \<times> py_error option" where
  "metar_step cfg st m =
     (case station_id m of
        None \<Rightarrow> (st, Some AttributeError)
      | Some stationId \<Rightarrow>
          (case flight_category m of
             None \<Rightarrow> (st\<lparr>gw_out := gw_out st @ [Print ''Missing flight condition, skipping.'']\<rparr>, None)
           | Some flightCategory' \<Rightarrow>
               let windGustSpeed' = (case wind_gust_kt m of None \<Rightarrow> 0 | Some g \<Rightarrow> g);
                   windGust' = (case wind_gust_kt m of
                                 None \<Rightarrow> False
                               | Some g \<Rightarrow> ALWAYS_BLINK_FOR_GUSTS cfg \<or> WIND_BLINK_THRESHOLD cfg < g);
                   windSpeed' = (case wind_speed_kt m of None \<Rightarrow> 0 | Some s \<Rightarrow> s);
                   windDir' = (case wind_dir_degrees m of None \<Rightarrow> [] | Some d \<Rightarrow> d);
                   tempC' = (case temp_c m of None \<Rightarrow> 0 | Some x \<Rightarrow> py_round x);
                   dewpointC' = (case dewpoint_c m of None \<Rightarrow> 0 | Some x \<Rightarrow> py_round x);
                   vis' = (case visibility_statute_mi m of None \<Rightarrow> 0 | Some x \<Rightarrow> py_round x);
                   altimHg' = (case altim_in_hg m of
                                None \<Rightarrow> 0
                              | Some x \<Rightarrow> of_int (py_round (x * 100)) / 100);
                   obs' = (case wx_string m of None \<Rightarrow> [] | Some w \<Rightarrow> w);
                   obsTime' = (case observation_time m of
                                None \<Rightarrow> gw_obsTime st
                              | Some t \<Rightarrow> Some t);
                   skyConditions' = map sky_layer (sky_condition m);
                   lightning' = (case raw_text m of
                                  None \<Rightarrow> False
                                | Some rawText \<Rightarrow> py_contains rawText ''LTG'');
                   entry = (\<lambda>ot. \<lparr> flightCategory = flightCategory', windDir = windDir',
                                   windSpeed = windSpeed', windGustSpeed = windGustSpeed',
                                   windGust = windGust', vis = vis', obs = obs', tempC = tempC',
                                   dewpointC = dewpointC', altimHg = altimHg',
                                   lightning = lightning', skyConditions = skyConditions',
                                   obsTime = ot \<rparr>);
                   logged = gw_out st @ [LogStation stationId (entry 0)]
               in (case obsTime' of
                     None \<Rightarrow> (st\<lparr>gw_obsTime := obsTime', gw_out := logged\<rparr>, Some UnboundLocalError)
                   | Some ot \<Rightarrow>
                       (st\<lparr>gw_conditionDict := (gw_conditionDict st)(stationId \<mapsto> entry ot),
                           gw_stationList := gw_stationList st @ [stationId],
                           gw_obsTime := obsTime',
                           gw_out := logged\<rparr>, None))))"

fun get_weather_loop :: "config \<Rightarrow> gw_state \<Rightarrow> metar list \<Rightarrow> gw_state \<times> py_error option" where
  "get_weather_loop cfg st [] = (st, None)"
| "get_weather_loop cfg st (m # ms) =
     (case metar_step cfg st m of
        (st', Some e) \<Rightarrow> (st', Some e)
      | (st', None) \<Rightarrow> get_weather_loop cfg st' ms)"

definition feed_url :: "string list \<Rightarrow> string" where
  "feed_url airports =
     ''https://www.aviationweather.gov/adds/dataserver_current/httpparam?dataSource=metars&requestType=retrieve&format=xml&hoursBeforeNow=5&mostRecentForEachStation=true&stationString=''
       @ py_join '','' (filter (\<lambda>item. item \<noteq> ''NULL'') airports)"

text \<open>The \<open>"NULL"\<close> entry of line 175, which line 176 pops again.\<close>

definition null_template :: "timestamp \<Rightarrow> condition" where
  "null_template now =
     \<lparr> flightCategory = [], windDir = [], windSpeed = 0, windGustSpeed = 0, windGust = False,
       vis = 0, obs = [], tempC = 0, dewpointC = 0, altimHg = 0, lightning = False,
       skyConditions = [], obsTime = now \<rparr>"

text \<open>
  \<open>get_weather\<close> returns the dictionary, or raises; what it printed and logged up to
  that point is returned beside the result. \<open>now\<close> is the clock reading of line 175.
  The log line of the per-station entry does not show the observation time, so the
  logged entry carries 0 there.
\<close>

definition get_weather ::
  "config \<Rightarrow> timestamp \<Rightarrow> string list \<Rightarrow> py_error + metar list
     \<Rightarrow> emitted list \<times> (py_error + (string \<rightharpoonup> condition))"
where
  "get_weather cfg now airports response =
     (let log0 = [LogInfo (''Retriving from '' @ feed_url airports)]
      in case response of
           Inl e \<Rightarrow> (log0, Inl e)
         | Inr metars \<Rightarrow>
             let d0 = (Map.empty(''NULL'' \<mapsto> null_template now))(''NULL'' := None);
                 st0 = \<lparr> gw_conditionDict = d0, gw_stationList = [], gw_obsTime = None, gw_out = log0 \<rparr>
             in (case get_weather_loop cfg st0 metars of
                   (st, Some e) \<Rightarrow> (gw_out st, Inl e)
                 | (st, None) \<Rightarrow> (gw_out st, Inr (gw_conditionDict st))))"

section \<open>Target colours: \<open>calc_target_colors\<close> (lines 234-264)\<close>

text \<open>The body of the loop over the stations: the pair appended for one airport code.\<close>

definition target_entry :: "config \<Rightarrow> (string \<rightharpoonup> condition) \<Rightarrow> string \<Rightarrow> color \<times> bool" where
  "target_entry cfg conditions airportcode =
     (if airportcode \<noteq> [] then
        (case conditions airportcode of
           None \<Rightarrow> (COLOR_CLEAR, False)
         | Some condition \<Rightarrow>
             let windy = (ACTIVATE_WINDCONDITION_ANIMATION cfg \<and>
                           (WIND_BLINK_THRESHOLD cfg < windSpeed condition \<or> windGust condition));
                 color = (if lightning condition then COLOR_LIGHTNING
                          else if flightCategory condition = ''VFR'' then COLOR_VFR
                          else if flightCategory condition = ''MVFR'' then COLOR_MVFR
                          else if flightCategory condition = ''IFR'' then COLOR_IFR
                          else if flightCategory condition = ''LIFR'' then COLOR_LIFR
                          else COLOR_CLEAR)
             in (color, windy))
      else (COLOR_CLEAR, False))"

fun target_loop ::
  "config \<Rightarrow> (string \<rightharpoonup> condition) \<Rightarrow> string list \<Rightarrow> (color \<times> bool) list \<Rightarrow> (color \<times> bool) list"
where
  "target_loop cfg conditions [] target_colors = target_colors"
| "target_loop cfg conditions (airportcode # rest) target_colors =
     target_loop cfg conditions rest (target_colors @ [target_entry cfg conditions airportcode])"

definition calc_target_colors ::
  "config \<Rightarrow> string list \<Rightarrow> (string \<rightharpoonup> condition) \<Rightarrow> (color \<times> bool) list"
where
  "calc_target_colors cfg stations conditions = target_loop cfg conditions stations []"

section \<open>The main display loop (lines 285-351)\<close>

text \<open>
  The main thread's view of the world: the time elapsed, the value of the global
  \<open>STOPFLAG\<close> at every instant (\<open>DONTSTOP\<close> wherever the main thread has not held it at
  a position), and every blink thread started so far. A thread is the call of \<open>blinkme\<close>
  it runs and the time it was started; what it does, and when it ends, is what
  \<open>blinkme\<close> does under the recorded flag. Statements other than \<open>sleep\<close> and \<open>join\<close>
  take no time. The colours the main thread itself writes to the strip are not recorded,
  only whether the write raises.
\<close>

record blink_thread =
  th_pixel :: nat
  th_color :: color
  th_time :: rat
  th_rate :: rat
  th_start :: rat

record world =
  clock :: rat
  STOPFLAG :: "rat \<Rightarrow> int"
  threads :: "blink_thread list"

definition world0 :: world where
  "world0 = \<lparr> clock = 0, STOPFLAG = (\<lambda>t. DONTSTOP), threads = [] \<rparr>"

definition thread_run :: "config \<Rightarrow> (rat \<Rightarrow> int) \<Rightarrow> blink_thread \<Rightarrow> event list \<times> outcome" where
  "thread_run cfg flag th =
     blinkme cfg (th_pixel th) (th_color th) (th_time th) (th_rate th) flag (th_start th)"

definition thread_end :: "config \<Rightarrow> (rat \<Rightarrow> int) \<Rightarrow> blink_thread \<Rightarrow> rat" where
  "thread_end cfg flag th = th_start th + slept (fst (thread_run cfg flag th))"

definition alive :: "config \<Rightarrow> world \<Rightarrow> blink_thread \<Rightarrow> bool" where
  "alive cfg w th = (clock w < thread_end cfg (STOPFLAG w) th)"

definition live_threads :: "config \<Rightarrow> world \<Rightarrow> blink_thread list" where
  "live_threads cfg w = filter (alive cfg w) (threads w)"

text \<open>
  \<open>STOPFLAG = p; threadarray[p].join(); STOPFLAG = DONTSTOP\<close> (lines 320-322 and
  345-347). The flag holds \<open>p\<close> from now until the joined thread has ended; the main
  thread resumes at that moment, or at once when the thread had ended before. A thread
  that reads the flag at the very instant it is written still reads the old value. An
  entry of \<open>threadarray\<close> that is the string \<open>''\<close> has no \<open>join\<close>.
\<close>

definition stop_and_join ::
  "config \<Rightarrow> world \<Rightarrow> nat \<Rightarrow> blink_thread option list \<Rightarrow> py_error + world"
where
  "stop_and_join cfg w p threadarray =
     (if length threadarray \<le> p then Inl IndexError
      else case threadarray ! p of
        None \<Rightarrow> Inl AttributeError
      | Some th \<Rightarrow>
          let t1 = clock w;
              raised = (\<lambda>t. if t1 < t then int p else STOPFLAG w t);
              t2 = max t1 (thread_end cfg raised th)
          in Inr (w\<lparr>clock := t2,
                   STOPFLAG := (\<lambda>t. if t1 < t \<and> t \<le> t2 then int p else STOPFLAG w t)\<rparr>))"

definition new_thread :: "config \<Rightarrow> world \<Rightarrow> nat \<Rightarrow> color \<Rightarrow> blink_thread" where
  "new_thread cfg w p c =
     \<lparr> th_pixel = p, th_color = c, th_time = 9999, th_rate = BLINK_SPEED cfg,
       th_start = clock w \<rparr>"

text \<open>Lines 299-307: one thread per windy position, \<open>''\<close> (here \<open>None\<close>) elsewhere.\<close>

fun start_threads ::
  "config \<Rightarrow> (color \<times> bool) list \<Rightarrow> nat \<Rightarrow> world \<times> blink_thread option list
     \<Rightarrow> world \<times> blink_thread option list"
where
  "start_threads cfg [] p (w, threadarray) = (w, threadarray)"
| "start_threads cfg (s # rest) p (w, threadarray) =
     (if snd s then
        let x = new_thread cfg w p (fst s)
        in start_threads cfg rest (Suc p) (w\<lparr>threads := threads w @ [x]\<rparr>, threadarray @ [Some x])
      else start_threads cfg rest (Suc p) (w, threadarray @ [None]))"

text \<open>Lines 343-347: stop and join the thread of every windy position, in order.\<close>

fun kill_all ::
  "config \<Rightarrow> (color \<times> bool) list \<Rightarrow> nat \<Rightarrow> blink_thread option list \<Rightarrow> world \<Rightarrow> py_error + world"
where
  "kill_all cfg [] p threadarray w = Inr w"
| "kill_all cfg (s # rest) p threadarray w =
     (if snd s then
        (case stop_and_join cfg w p threadarray of
           Inl e \<Rightarrow> Inl e
         | Inr w' \<Rightarrow> kill_all cfg rest (Suc p) threadarray w')
      else kill_all cfg rest (Suc p) threadarray w)"

text \<open>
  Lines 318-339, the body of \<open>for metarStation in airports\<close> at position \<open>p\<close>. The
  call of \<open>blinkme\<close> on line 329 runs in the main thread, which is then the only writer
  of \<open>STOPFLAG\<close>; an exception it raises leaves the loop. \<open>ledstate\<close> has one entry per
  airport, so \<open>ledstate[p]\<close> is in range for every position the loop visits.
\<close>

definition rotate_station ::
  "config \<Rightarrow> (string \<rightharpoonup> condition) \<Rightarrow> (color \<times> bool) list \<Rightarrow> nat \<Rightarrow> string
     \<Rightarrow> world \<times> blink_thread option list \<Rightarrow> py_error + world \<times> blink_thread option list"
where
  "rotate_station cfg conditionDict ledstate p metarStation s =
     (case s of (w, threadarray) \<Rightarrow>
      (case (if FAST_BLINK_DISPLAYED_STATION cfg \<and> snd (ledstate ! p)
             then stop_and_join cfg w p threadarray else Inr w) of
         Inl e \<Rightarrow> Inl e
       | Inr w1 \<Rightarrow>
           if metarStation \<noteq> ''NULL'' \<and> conditionDict metarStation \<noteq> None then
             if FAST_BLINK_DISPLAYED_STATION cfg then
               (case blinkme cfg p (fst (ledstate ! p)) (DISPLAY_ROTATION_SPEED cfg)
                       (FAST_BLINK_SPEED cfg) (STOPFLAG w1) (clock w1) of
                  (evs, Raised e) \<Rightarrow> Inl e
                | (evs, Returned) \<Rightarrow>
                    if LED_COUNT cfg \<le> p then Inl IndexError
                    else
                      let w2 = w1\<lparr>clock := clock w1 + slept evs\<rparr>
                      in if snd (ledstate ! p) then
                           let x = new_thread cfg w2 p (fst (ledstate ! p))
                           in Inr (w2\<lparr>threads := threads w2 @ [x]\<rparr>, threadarray[p := Some x])
                         else Inr (w2, threadarray))
             else if DISPLAY_ROTATION_SPEED cfg < 0 then Inl ValueError
             else Inr (w1\<lparr>clock := clock w1 + DISPLAY_ROTATION_SPEED cfg\<rparr>, threadarray)
           else Inr (w1, threadarray)))"

fun rotate_pass ::
  "config \<Rightarrow> (string \<rightharpoonup> condition) \<Rightarrow> (color \<times> bool) list \<Rightarrow> nat \<Rightarrow> string list
     \<Rightarrow> world \<times> blink_thread option list \<Rightarrow> py_error + world \<times> blink_thread option list"
where
  "rotate_pass cfg conditionDict ledstate p [] s = Inr s"
| "rotate_pass cfg conditionDict ledstate p (metarStation # rest) s =
     (case rotate_station cfg conditionDict ledstate p metarStation s of
        Inl e \<Rightarrow> Inl e
      | Inr s' \<Rightarrow> rotate_pass cfg conditionDict ledstate (Suc p) rest s')"

text \<open>Line 313: \<open>for l in range(num_display_loops)\<close>, one pass over the airports each.\<close>

fun rotate_loops ::
  "config \<Rightarrow> (string \<rightharpoonup> condition) \<Rightarrow> (color \<times> bool) list \<Rightarrow> string list \<Rightarrow> nat list
     \<Rightarrow> world \<times> blink_thread option list \<Rightarrow> py_error + world \<times> blink_thread option list"
where
  "rotate_loops cfg conditionDict ledstate airports [] s = Inr s"
| "rotate_loops cfg conditionDict ledstate airports (l # ls) s =
     (case rotate_pass cfg conditionDict ledstate 0 airports s of
        Inl e \<Rightarrow> Inl e
      | Inr s' \<Rightarrow> rotate_loops cfg conditionDict ledstate airports ls s')"

text \<open>
  What one pass of \<open>while True\<close> meets outside the script: whether
  \<open>initialize_display_and_leds\<close> returned a display, the lines of the airports file,
  the outcome of the request, and the clock reading inside \<open>get_weather\<close>.
\<close>

record cycle_env =
  disp_attached :: bool
  airports_file :: "string list"
  env_response :: "py_error + metar list"
  env_now :: timestamp

text \<open>
  One pass of the body of \<open>while True\<close>, lines 286-351. An exception raised by any
  statement is the result \<open>Inl\<close>: the body has no \<open>try\<close>.
\<close>

definition refresh_cycle :: "config \<Rightarrow> world \<Rightarrow> cycle_env \<Rightarrow> py_error + world" where
  "refresh_cycle cfg w env =
     (let airports = airports_file env
      in case snd (get_weather cfg (env_now env) airports (env_response env)) of
           Inl e \<Rightarrow> Inl e
         | Inr conditionDict \<Rightarrow>
             let ledstate = calc_target_colors cfg airports conditionDict
             in if DISPLAY_ROTATION_SPEED cfg * of_nat (length airports) = 0
                  then Inl ZeroDivisionError
                else
                  let num_display_loops =
                        py_int (REFRESH_TIME_SECONDS cfg /
                                  (DISPLAY_ROTATION_SPEED cfg * of_nat (length airports)))
                  in if LED_COUNT cfg < length ledstate then Inl IndexError
                     else
                       case start_threads cfg ledstate 0 (w, []) of (w1, threadarray) \<Rightarrow>
                         if disp_attached env then
                           (case rotate_loops cfg conditionDict ledstate airports
                                   (py_range num_display_loops) (w1, threadarray) of
                              Inl e \<Rightarrow> Inl e
                            | Inr (w2, threadarray') \<Rightarrow> kill_all cfg ledstate 0 threadarray' w2)
                         else if REFRESH_TIME_SECONDS cfg < 0 then Inl ValueError
                         else Inr (w1\<lparr>clock := clock w1 + REFRESH_TIME_SECONDS cfg\<rparr>))"

text \<open>
  \<open>while True\<close>, run for as many passes as there are environments in the list: the
  result is the exception that left the loop, or the world at the top of the next pass.
\<close>

fun main_loop :: "config \<Rightarrow> world \<Rightarrow> cycle_env list \<Rightarrow> py_error + world" where
  "main_loop cfg w [] = Inr w"
| "main_loop cfg w (env # envs) =
     (case refresh_cycle cfg w env of
        Inl e \<Rightarrow> Inl e
      | Inr w' \<Rightarrow> main_loop cfg w' envs)"

text \<open>
  The bookkeeping the main loop relies on, as a predicate on its state: the stop flag
  is clear in the future, and every blink thread that is still running is the one
  recorded in \<open>threadarray\<close> at a windy position from \<open>p\<close> on.
\<close>

definition registered :: "config \<Rightarrow> (color \<times> bool) list \<Rightarrow> nat \<Rightarrow> world \<Rightarrow> blink_thread option list \<Rightarrow> bool" where
  "registered cfg ledstate p w threadarray \<longleftrightarrow>
     (\<forall>t > clock w. STOPFLAG w t = DONTSTOP) \<and>
     (\<forall>th \<in> set (threads w). alive cfg w th \<longrightarrow>
        (\<exists>q. p \<le> q \<and> q < length threadarray \<and> q < length ledstate \<and>
             snd (ledstate ! q) \<and> threadarray ! q = Some th))"

text \<open>
  Every windy position has a thread recorded in \<open>threadarray\<close>, which is as long as
  the target state.
\<close>

definition slots :: "(color \<times> bool) list \<Rightarrow> blink_thread option list \<Rightarrow> bool" where
  "slots ledstate threadarray \<longleftrightarrow>
     length threadarray = length ledstate \<and>
     (\<forall>q < length threadarray. snd (ledstate ! q) \<longrightarrow> threadarray ! q \<noteq> None)"

section \<open>Reference definitions and sample inputs\<close>


text \<open>A feed record that carries a station identifier and nothing else.\<close>

definition bare_metar :: "string \<Rightarrow> metar" where
  "bare_metar sid =
     \<lparr> station_id = Some sid, flight_category = None, wind_gust_kt = None, wind_speed_kt = None,
       wind_dir_degrees = None, temp_c = None, dewpoint_c = None, visibility_statute_mi = None,
       altim_in_hg = None, wx_string = None, observation_time = None, sky_condition = [],
       raw_text = None \<rparr>"

text \<open>A feed record with a flight category and an observation time.\<close>

definition sample_metar :: "string \<Rightarrow> string \<Rightarrow> timestamp \<Rightarrow> metar" where
  "sample_metar sid fc t =
     (bare_metar sid)\<lparr>flight_category := Some fc, observation_time := Some t\<rparr>"

text \<open>Feed records with wind: 30 kt sustained, and 10 kt gusting 30 kt.\<close>

definition windy_metar :: "string \<Rightarrow> metar" where
  "windy_metar sid = (sample_metar sid ''VFR'' 5)\<lparr>wind_speed_kt := Some 30\<rparr>"


text \<open>
  \<open>STOPFLAG\<close> as the main thread drives it for one position: \<open>DONTSTOP\<close> until the
  request is raised at \<open>tr\<close>, the position \<open>p\<close> from then on.
\<close>

definition raised_at :: "rat \<Rightarrow> nat \<Rightarrow> rat \<Rightarrow> int" where
  "raised_at tr p = (\<lambda>t. if tr \<le> t then int p else DONTSTOP)"

text \<open>
  Passes of the main loop: over a feed that reports KBOS with 30 kt of wind, without
  and with a display attached, and one whose request fails.
\<close>

definition nodisp_env :: cycle_env where
  "nodisp_env =
     \<lparr> disp_attached = False, airports_file = [''KBOS''],
       env_response = Inr [windy_metar ''KBOS''], env_now = 0 \<rparr>"

definition disp_env :: cycle_env where
  "disp_env =
     \<lparr> disp_attached = True, airports_file = [''KBOS''],
       env_response = Inr [windy_metar ''KBOS''], env_now = 0 \<rparr>"

definition failing_env :: cycle_env where
  "failing_env =
     \<lparr> disp_attached = True, airports_file = [''KBOS''],
       env_response = Inl URLError, env_now = 0 \<rparr>"

section \<open>Properties of \<open>calc_target_colors\<close>\<close>

lemma target_loop_map:
  "target_loop cfg conditions stations acc = acc @ map (target_entry cfg conditions) stations"
  by (induction stations arbitrary: acc) simp_all

lemma calc_target_colors_map:
  "calc_target_colors cfg stations conditions = map (target_entry cfg conditions) stations"
  by (simp add: calc_target_colors_def target_loop_map)




text \<open>
  Claim C7. For a station whose condition has \<open>lightning\<close> set, \<open>calc_target_colors\<close>
  assigns the lightning colour whatever the flight category is (so never the IFR
  colour), and the animate flag of that entry is the wind rule alone: it is the same
  with the lightning bit cleared.
\<close>

theorem lightning_color_first:
  assumes "i < length stations" and "stations ! i = airportcode" and "airportcode \<noteq> []"
    and "conditions airportcode = Some c" and "lightning c"
  shows "calc_target_colors cfg stations conditions ! i =
           (COLOR_LIGHTNING,
            ACTIVATE_WINDCONDITION_ANIMATION cfg \<and> (WIND_BLINK_THRESHOLD cfg < windSpeed c \<or> windGust c))
         \<and> fst (calc_target_colors cfg stations conditions ! i) \<noteq> COLOR_IFR
         \<and> snd (calc_target_colors cfg stations (conditions(airportcode \<mapsto> c\<lparr>lightning := False\<rparr>)) ! i)
             = snd (calc_target_colors cfg stations conditions ! i)"
  using assms
  by (simp add: calc_target_colors_map target_entry_def COLOR_LIGHTNING_def COLOR_IFR_def)

theorem lightning_color_first_witness:
  "calc_target_colors default_config [''KJFK'']
     [''KJFK'' \<mapsto> (null_template 0)\<lparr>flightCategory := ''IFR'', lightning := True\<rparr>] ! 0
     = (COLOR_LIGHTNING, False)"
  using lightning_color_first [of 0 "[''KJFK'']" "''KJFK''"
     "[''KJFK'' \<mapsto> (null_template 0)\<lparr>flightCategory := ''IFR'', lightning := True\<rparr>]"
     "(null_template 0)\<lparr>flightCategory := ''IFR'', lightning := True\<rparr>" default_config]
  by (simp add: null_template_def default_config_def)

section \<open>Properties of \<open>get_weather\<close>\<close>

lemma metar_step_stored:
  assumes "station_id m = Some sid" and "flight_category m = Some fc"
    and "metar_step cfg st m = (st', None)"
  shows "\<exists>c c0. gw_conditionDict st' = (gw_conditionDict st)(sid \<mapsto> c)
      \<and> gw_out st' = gw_out st @ [LogStation sid c0]
      \<and> flightCategory c = fc
      \<and> windSpeed c = (case wind_speed_kt m of None \<Rightarrow> 0 | Some s \<Rightarrow> s)
      \<and> windGust c = (case wind_gust_kt m of None \<Rightarrow> False
                      | Some g \<Rightarrow> ALWAYS_BLINK_FOR_GUSTS cfg \<or> WIND_BLINK_THRESHOLD cfg < g)"
proof (cases "observation_time m")
  case None
  show ?thesis
  proof (cases "gw_obsTime st")
    case n: None
    with assms None show ?thesis by (simp add: metar_step_def Let_def)
  next
    case (Some ot)
    with assms None show ?thesis by (auto simp: metar_step_def Let_def)
  qed
next
  case (Some t)
  with assms show ?thesis by (auto simp: metar_step_def Let_def)
qed

lemma metar_step_ok_cases:
  assumes "metar_step cfg st m = (st', None)"
  obtains (skipped) sid where "station_id m = Some sid" "flight_category m = None"
      "st' = st\<lparr>gw_out := gw_out st @ [Print ''Missing flight condition, skipping.'']\<rparr>"
  | (stored) sid fc c c0 where "station_id m = Some sid" "flight_category m = Some fc"
      "gw_conditionDict st' = (gw_conditionDict st)(sid \<mapsto> c)"
      "gw_out st' = gw_out st @ [LogStation sid c0]"
proof (cases "station_id m")
  case None
  with assms show ?thesis by (simp add: metar_step_def)
next
  case sid: (Some sid)
  show ?thesis
  proof (cases "flight_category m")
    case None
    with assms sid have "st' = st\<lparr>gw_out := gw_out st @ [Print ''Missing flight condition, skipping.'']\<rparr>"
      by (simp add: metar_step_def)
    with sid None show ?thesis by (rule skipped)
  next
    case (Some fc)
    from metar_step_stored [OF sid Some assms] obtain c c0 where
      "gw_conditionDict st' = (gw_conditionDict st)(sid \<mapsto> c)"
      "gw_out st' = gw_out st @ [LogStation sid c0]"
      by blast
    with sid Some show ?thesis by (rule stored)
  qed
qed

lemma get_weather_loop_step:
  assumes "get_weather_loop cfg st (m # ms) = (st', None)"
  obtains st1 where "metar_step cfg st m = (st1, None)" "get_weather_loop cfg st1 ms = (st', None)"
  using assms by (auto split: prod.splits option.splits)

lemma get_weather_loop_dom:
  "get_weather_loop cfg st ms = (st', None) \<Longrightarrow>
     dom (gw_conditionDict st') =
       dom (gw_conditionDict st) \<union>
       {sid. \<exists>m \<in> set ms. station_id m = Some sid \<and> flight_category m \<noteq> None}"
proof (induction ms arbitrary: st)
  case Nil
  then show ?case by simp
next
  case (Cons m ms)
  from Cons.prems obtain st1 where s1: "metar_step cfg st m = (st1, None)"
    and r: "get_weather_loop cfg st1 ms = (st', None)"
    by (rule get_weather_loop_step)
  from s1 have "dom (gw_conditionDict st1) =
      dom (gw_conditionDict st) \<union> {sid. station_id m = Some sid \<and> flight_category m \<noteq> None}"
    by (cases rule: metar_step_ok_cases) auto
  with Cons.IH [OF r] show ?case by auto
qed

lemma get_weather_loop_skips:
  "get_weather_loop cfg st ms = (st', None) \<Longrightarrow>
     length (filter (\<lambda>l. l = Print ''Missing flight condition, skipping.'') (gw_out st')) =
       length (filter (\<lambda>l. l = Print ''Missing flight condition, skipping.'') (gw_out st))
       + length (filter (\<lambda>m. flight_category m = None) ms)"
proof (induction ms arbitrary: st)
  case Nil
  then show ?case by simp
next
  case (Cons m ms)
  from Cons.prems obtain st1 where s1: "metar_step cfg st m = (st1, None)"
    and r: "get_weather_loop cfg st1 ms = (st', None)"
    by (rule get_weather_loop_step)
  from s1 have "length (filter (\<lambda>l. l = Print ''Missing flight condition, skipping.'') (gw_out st1)) =
       length (filter (\<lambda>l. l = Print ''Missing flight condition, skipping.'') (gw_out st))
       + (if flight_category m = None then 1 else 0)"
    by (cases rule: metar_step_ok_cases) auto
  with Cons.IH [OF r] show ?case by auto
qed

lemma get_weather_ok:
  assumes "get_weather cfg now airports (Inr metars) = (out, Inr d)"
  obtains st where
    "get_weather_loop cfg \<lparr> gw_conditionDict = Map.empty, gw_stationList = [], gw_obsTime = None,
        gw_out = [LogInfo (''Retriving from '' @ feed_url airports)] \<rparr> metars = (st, None)"
    "d = gw_conditionDict st" "out = gw_out st"
proof -
  obtain st r where l: "get_weather_loop cfg \<lparr> gw_conditionDict = Map.empty, gw_stationList = [],
        gw_obsTime = None, gw_out = [LogInfo (''Retriving from '' @ feed_url airports)] \<rparr> metars = (st, r)"
    by (cases "get_weather_loop cfg \<lparr> gw_conditionDict = Map.empty, gw_stationList = [],
        gw_obsTime = None, gw_out = [LogInfo (''Retriving from '' @ feed_url airports)] \<rparr> metars")
  with assms have "r = None \<and> d = gw_conditionDict st \<and> out = gw_out st"
    by (cases r) (simp_all add: get_weather_def)
  with l that show ?thesis by blast
qed

text \<open>
  Claim C1, as the code has it. When \<open>get_weather\<close> processes a feed without raising,
  the condition map has an entry exactly for the station identifiers of the records
  that carry a flight category. A record without one is skipped by the guard of lines
  180-182: one line \<open>Missing flight condition, skipping.\<close> is printed per such record,
  and no entry is made for it.
\<close>

theorem get_weather_entries:
  assumes "get_weather cfg now airports (Inr metars) = (out, Inr d)"
  shows "dom d = {sid. \<exists>m \<in> set metars. station_id m = Some sid \<and> flight_category m \<noteq> None}
       \<and> length (filter (\<lambda>l. l = Print ''Missing flight condition, skipping.'') out)
          = length (filter (\<lambda>m. flight_category m = None) metars)"
proof -
  from assms obtain st where
    l: "get_weather_loop cfg \<lparr> gw_conditionDict = Map.empty, gw_stationList = [], gw_obsTime = None,
        gw_out = [LogInfo (''Retriving from '' @ feed_url airports)] \<rparr> metars = (st, None)"
    and d: "d = gw_conditionDict st" and out: "out = gw_out st"
    by (rule get_weather_ok)
  show ?thesis
    using get_weather_loop_dom [OF l] get_weather_loop_skips [OF l] d out by simp
qed

theorem get_weather_entries_witness:
  "get_weather default_config 0 [''KBOS'', ''KJFK'']
      (Inr [sample_metar ''KBOS'' ''VFR'' 5, bare_metar ''KJFK''])
    = ([LogInfo (''Retriving from '' @ feed_url [''KBOS'', ''KJFK'']),
        LogStation ''KBOS'' ((null_template 0)\<lparr>flightCategory := ''VFR''\<rparr>),
        Print ''Missing flight condition, skipping.''],
       Inr [''KBOS'' \<mapsto> (null_template 5)\<lparr>flightCategory := ''VFR''\<rparr>])
   \<and> dom [''KBOS'' \<mapsto> (null_template 5)\<lparr>flightCategory := ''VFR''\<rparr>] = {''KBOS''}
   \<and> length (filter (\<lambda>m. flight_category m = None)
         [sample_metar ''KBOS'' ''VFR'' 5, bare_metar ''KJFK'']) = 1"
proof -
  have run: "get_weather default_config 0 [''KBOS'', ''KJFK'']
               (Inr [sample_metar ''KBOS'' ''VFR'' 5, bare_metar ''KJFK''])
             = ([LogInfo (''Retriving from '' @ feed_url [''KBOS'', ''KJFK'']),
                 LogStation ''KBOS'' ((null_template 0)\<lparr>flightCategory := ''VFR''\<rparr>),
                 Print ''Missing flight condition, skipping.''],
                Inr [''KBOS'' \<mapsto> (null_template 5)\<lparr>flightCategory := ''VFR''\<rparr>])"
    by (simp add: get_weather_def sample_metar_def bare_metar_def metar_step_def
          null_template_def sky_layer_def)
  show ?thesis
    using run get_weather_entries [OF run] by simp
qed

text \<open>
  Claim C1 as stated fails: a feed whose only record, for KBOS, has no flight category
  yields an empty condition map. The record is neither classified nor logged; the
  skipping line is printed.
\<close>

theorem get_weather_drops_record:
  "get_weather default_config 0 [''KBOS''] (Inr [bare_metar ''KBOS'']) =
     ([LogInfo (''Retriving from '' @ feed_url [''KBOS'']),
       Print ''Missing flight condition, skipping.''], Inr Map.empty)"
  by (simp add: get_weather_def bare_metar_def metar_step_def)

text \<open>
  Claim C4 against the code, at a feed that the script can receive: one record with a
  station and a flight category and no \<open>observation_time\<close>. The numeric fields take
  their defaults, but \<open>obsTime\<close> has none: building the entry raises UnboundLocalError.
  When an earlier record carried an observation time, the later record that lacks one
  is stored with the earlier record's time (5 here), whatever the clock says.
\<close>

theorem obs_time_has_no_default:
  "snd (get_weather cfg now airports (Inr [(bare_metar ''KBOS'')\<lparr>flight_category := Some ''VFR''\<rparr>]))
     = Inl UnboundLocalError
   \<and> snd (get_weather cfg now airports
        (Inr [sample_metar ''KBOS'' ''VFR'' 5, (bare_metar ''KJFK'')\<lparr>flight_category := Some ''IFR''\<rparr>]))
     = Inr [''KBOS'' \<mapsto> (null_template 5)\<lparr>flightCategory := ''VFR''\<rparr>,
            ''KJFK'' \<mapsto> (null_template 5)\<lparr>flightCategory := ''IFR''\<rparr>]"
  by (simp add: get_weather_def sample_metar_def bare_metar_def metar_step_def
          null_template_def sky_layer_def)






section \<open>Properties of \<open>blinkme\<close>\<close>

text \<open>One pass of the loop, with the two half-period sleeps added up.\<close>

lemma blink_loop_Cons:
  "blink_loop cfg p c rate flag t (i # rest) =
     (if LED_COUNT cfg \<le> p then ([], Raised IndexError)
      else if rate / 2 < 0 then ([SetPixel p COLOR_CLEAR, Show], Raised ValueError)
      else if flag (t + rate) = int p
        then ([SetPixel p COLOR_CLEAR, Show, Sleep (rate / 2), SetPixel p c, Show, Sleep (rate / 2)],
              Returned)
      else ([SetPixel p COLOR_CLEAR, Show, Sleep (rate / 2), SetPixel p c, Show, Sleep (rate / 2)]
              @ fst (blink_loop cfg p c rate flag (t + rate) rest),
            snd (blink_loop cfg p c rate flag (t + rate) rest)))"
proof -
  have h: "t + rate / 2 + rate / 2 = t + rate" by simp
  show ?thesis
    unfolding blink_loop.simps Let_def h by (simp add: case_prod_beta)
qed

lemma blink_loop_writes:
  "blink_loop cfg p c rate flag t is = (evs, Returned) \<Longrightarrow>
     \<exists>k. writes_to p evs = concat (replicate k [COLOR_CLEAR, c]) \<and> (evs \<noteq> [] \<longrightarrow> 0 < k)"
proof (induction "is" arbitrary: t evs)
  case Nil
  then have "evs = []" by simp
  then have "writes_to p evs = concat (replicate 0 [COLOR_CLEAR, c])" by simp
  with \<open>evs = []\<close> show ?case by blast
next
  case (Cons i rest)
  let ?body = "[SetPixel p COLOR_CLEAR, Show, Sleep (rate / 2), SetPixel p c, Show, Sleep (rate / 2)]"
  from Cons.prems have ok: "\<not> LED_COUNT cfg \<le> p" "\<not> rate / 2 < 0"
    unfolding blink_loop_Cons by (auto split: if_splits)
  show ?case
  proof (cases "flag (t + rate) = int p")
    case True
    with Cons.prems ok have "evs = ?body"
      unfolding blink_loop_Cons by simp
    then have "writes_to p evs = concat (replicate 1 [COLOR_CLEAR, c])" by simp
    then show ?thesis by blast
  next
    case False
    with Cons.prems ok obtain evs' where
      r: "blink_loop cfg p c rate flag (t + rate) rest = (evs', Returned)" and e: "evs = ?body @ evs'"
      unfolding blink_loop_Cons
      by (cases "blink_loop cfg p c rate flag (t + rate) rest") auto
    from Cons.IH [OF r] obtain k where "writes_to p evs' = concat (replicate k [COLOR_CLEAR, c])"
      by blast
    with e have "writes_to p evs = concat (replicate (Suc k) [COLOR_CLEAR, c])" by simp
    then show ?thesis by blast
  qed
qed

lemma last_concat_replicate:
  "0 < k \<Longrightarrow> last (concat (replicate k [a, b])) = b"
  by (induction k) (auto simp: last_append)


text \<open>A task sleeps whole blink periods only: it leaves the loop where a period ends.\<close>

lemma blink_loop_slept_periods:
  "\<exists>k \<le> length is. slept (fst (blink_loop cfg p c rate flag t is)) = of_nat k * rate"
proof (induction "is" arbitrary: t)
  case Nil
  have "slept (fst (blink_loop cfg p c rate flag t [])) = of_nat 0 * rate" by simp
  then show ?case by blast
next
  case (Cons i rest)
  from Cons.IH [of "t + rate"] obtain k where
    k: "k \<le> length rest" "slept (fst (blink_loop cfg p c rate flag (t + rate) rest)) = of_nat k * rate"
    by blast
  consider (stop) "LED_COUNT cfg \<le> p \<or> rate / 2 < 0"
    | (one) "\<not> LED_COUNT cfg \<le> p" "\<not> rate / 2 < 0" "flag (t + rate) = int p"
    | (more) "\<not> LED_COUNT cfg \<le> p" "\<not> rate / 2 < 0" "flag (t + rate) \<noteq> int p"
    by blast
  then show ?case
  proof cases
    case stop
    then have "slept (fst (blink_loop cfg p c rate flag t (i # rest))) = of_nat 0 * rate"
      unfolding blink_loop_Cons by auto
    then show ?thesis by blast
  next
    case one
    then have "slept (fst (blink_loop cfg p c rate flag t (i # rest))) = of_nat 1 * rate"
      unfolding blink_loop_Cons by simp
    moreover have "1 \<le> length (i # rest)" by simp
    ultimately show ?thesis by blast
  next
    case more
    then have "slept (fst (blink_loop cfg p c rate flag t (i # rest))) = of_nat (Suc k) * rate"
      unfolding blink_loop_Cons using k(2) by (simp add: algebra_simps)
    moreover have "Suc k \<le> length (i # rest)" using k(1) by simp
    ultimately show ?thesis by blast
  qed
qed


text \<open>
  Once the flag holds the task's position after \<open>tr\<close>, the task has ended one period
  after \<open>tr\<close> at the latest: the first read of the flag after \<open>tr\<close> ends it.
\<close>

lemma blink_loop_latency:
  assumes "0 < rate" and "\<forall>u > tr. flag u = int p"
  shows "t \<le> tr \<Longrightarrow> t + slept (fst (blink_loop cfg p c rate flag t is)) \<le> tr + rate"
proof (induction "is" arbitrary: t)
  case Nil
  with assms(1) show ?case by simp
next
  case (Cons i rest)
  show ?case
  proof (cases "flag (t + rate) = int p")
    case True
    with Cons.prems assms(1) show ?thesis
      unfolding blink_loop_Cons by simp
  next
    case False
    with assms(2) have "t + rate \<le> tr" by (metis not_le_imp_less)
    from Cons.IH [OF this] Cons.prems assms(1) False show ?thesis
      unfolding blink_loop_Cons by (simp add: algebra_simps)
  qed
qed

text \<open>A task whose position is never raised runs every pass of its loop.\<close>

lemma blink_loop_unstopped:
  assumes "\<forall>u. flag u \<noteq> int p" and "p < LED_COUNT cfg" and "0 \<le> rate"
  shows "slept (fst (blink_loop cfg p c rate flag t is)) = rate * of_nat (length is)
       \<and> snd (blink_loop cfg p c rate flag t is) = Returned"
proof (induction "is" arbitrary: t)
  case Nil
  show ?case by simp
next
  case (Cons i rest)
  from Cons.IH [of "t + rate"] assms show ?case
    unfolding blink_loop_Cons by (simp add: algebra_simps)
qed

lemma blinkme_unstopped_slept:
  assumes "\<forall>u. flag u \<noteq> int p" and "p < LED_COUNT cfg" and "0 < rate"
  shows "slept (fst (blinkme cfg p c time rate flag t)) = rate * of_nat (nat (py_int (time / rate)))"
  using assms blink_loop_unstopped [of flag p cfg rate c t "py_range (py_int (time / rate))"]
  by (simp add: blinkme_def py_range_def)

text \<open>A task on the strip with a non-negative period raises nothing.\<close>

lemma blink_loop_returns:
  assumes "p < LED_COUNT cfg" and "0 \<le> rate"
  shows "snd (blink_loop cfg p c rate flag t is) = Returned"
proof (induction "is" arbitrary: t)
  case Nil
  show ?case by simp
next
  case (Cons i rest)
  from Cons.IH [of "t + rate"] assms show ?case
    unfolding blink_loop_Cons by simp
qed

lemma blinkme_returns:
  assumes "p < LED_COUNT cfg" and "0 < rate"
  shows "snd (blinkme cfg p c time rate flag t) = Returned"
  using assms blink_loop_returns [of p cfg rate c flag t] by (simp add: blinkme_def)

text \<open>
  What a task does depends on the flag only up to the moment the task ends.
\<close>

lemma blink_loop_slept_nonneg:
  "0 \<le> slept (fst (blink_loop cfg p c rate flag t is))"
proof (induction "is" arbitrary: t)
  case Nil
  show ?case by simp
next
  case (Cons i rest)
  from Cons.IH [of "t + rate"] show ?case
    unfolding blink_loop_Cons by auto
qed

lemma blinkme_slept_nonneg:
  "0 \<le> slept (fst (blinkme cfg p c time rate flag t))"
  by (simp add: blinkme_def blink_loop_slept_nonneg)

lemma blink_loop_flag_cong:
  assumes "\<forall>u \<le> T. flag' u = flag u"
  shows "t + slept (fst (blink_loop cfg p c rate flag t is)) \<le> T \<Longrightarrow>
           blink_loop cfg p c rate flag' t is = blink_loop cfg p c rate flag t is"
proof (induction "is" arbitrary: t)
  case Nil
  show ?case by simp
next
  case (Cons i rest)
  show ?case
  proof (cases "LED_COUNT cfg \<le> p \<or> rate / 2 < 0")
    case True
    then show ?thesis unfolding blink_loop_Cons by auto
  next
    case False
    then have ok: "\<not> LED_COUNT cfg \<le> p" "\<not> rate / 2 < 0" by simp_all
    have nn: "0 \<le> slept (fst (blink_loop cfg p c rate flag (t + rate) rest))"
      by (rule blink_loop_slept_nonneg)
    show ?thesis
    proof (cases "flag (t + rate) = int p")
      case True
      with Cons.prems ok have "t + rate \<le> T"
        unfolding blink_loop_Cons by simp
      with assms True have "flag' (t + rate) = int p" by simp
      with True ok show ?thesis unfolding blink_loop_Cons by simp
    next
      case False
      with Cons.prems ok have le: "(t + rate) + slept (fst (blink_loop cfg p c rate flag (t + rate) rest)) \<le> T"
        unfolding blink_loop_Cons by (simp add: algebra_simps)
      with nn have "t + rate \<le> T" by linarith
      with assms False have f': "flag' (t + rate) \<noteq> int p" by simp
      from Cons.IH [OF le] False f' ok show ?thesis
        unfolding blink_loop_Cons by simp
    qed
  qed
qed





text \<open>
  Claim C9. A task that returns has written to its position the off colour and the on
  colour in turn, whole pairs only: it leaves the loop after the on-phase, never between
  the two writes. A cancelled task has run the loop body at least once (the flag is read
  at the end of the body), so its last write to the position is the on colour.
\<close>

theorem blinkme_leaves_on_color:
  assumes "blinkme cfg pixelnum color time blinkrate stopflag t0 = (evs, Returned)"
  shows "(\<exists>k. writes_to pixelnum evs = concat (replicate k [COLOR_CLEAR, color]))
       \<and> (evs \<noteq> [] \<longrightarrow> writes_to pixelnum evs \<noteq> [] \<and> last (writes_to pixelnum evs) = color)"
proof -
  from assms have
    l: "blink_loop cfg pixelnum color blinkrate stopflag t0 (py_range (py_int (time / blinkrate)))
          = (evs, Returned)"
    by (simp add: blinkme_def split: if_splits)
  from blink_loop_writes [OF l] obtain k where
    k: "writes_to pixelnum evs = concat (replicate k [COLOR_CLEAR, color])" "evs \<noteq> [] \<longrightarrow> 0 < k"
    by blast
  have "writes_to pixelnum evs \<noteq> [] \<and> last (writes_to pixelnum evs) = color" if "evs \<noteq> []"
  proof -
    from that k(2) have "0 < k" by simp
    then obtain j where "k = Suc j" by (cases k) simp_all
    with k(1) \<open>0 < k\<close> show ?thesis by (simp add: last_concat_replicate)
  qed
  with k(1) show ?thesis by blast
qed

theorem blinkme_leaves_on_color_witness:
  "blinkme default_config 0 COLOR_VFR 10 2 (raised_at 3 0) 0 =
     ([SetPixel 0 COLOR_CLEAR, Show, Sleep 1, SetPixel 0 COLOR_VFR, Show, Sleep 1,
       SetPixel 0 COLOR_CLEAR, Show, Sleep 1, SetPixel 0 COLOR_VFR, Show, Sleep 1], Returned)
   \<and> last (writes_to 0 [SetPixel 0 COLOR_CLEAR, Show, Sleep 1, SetPixel 0 COLOR_VFR, Show, Sleep 1,
       SetPixel 0 COLOR_CLEAR, Show, Sleep 1, SetPixel 0 COLOR_VFR, Show, Sleep 1]) = COLOR_VFR"
proof -
  have run: "blinkme default_config 0 COLOR_VFR 10 2 (raised_at 3 0) 0 =
     ([SetPixel 0 COLOR_CLEAR, Show, Sleep 1, SetPixel 0 COLOR_VFR, Show, Sleep 1,
       SetPixel 0 COLOR_CLEAR, Show, Sleep 1, SetPixel 0 COLOR_VFR, Show, Sleep 1], Returned)"
    by (simp add: blinkme_def py_int_def py_range_def raised_at_def default_config_def
          DONTSTOP_def upt_rec)
  show ?thesis
    using run blinkme_leaves_on_color [OF run] by simp
qed

text \<open>
  Claim C5, as the code has it. The task reads the stop flag once per full blink cycle,
  after the second half-period sleep. With \<open>blinkrate > 0\<close>, a request for the task's
  position that is raised at \<open>tr\<close>, while the task runs, and held from then on, is acted
  on within one full period: the task has ended by \<open>tr + blinkrate\<close>, whether or not a
  read at the very instant \<open>tr\<close> sees it. The time a task sleeps is always a whole
  number of periods.
\<close>

theorem blinkme_latency:
  assumes "0 < blinkrate" and "t0 \<le> tr" and "\<forall>t > tr. stopflag t = int pixelnum"
  shows "t0 + slept (fst (blinkme cfg pixelnum color time blinkrate stopflag t0)) \<le> tr + blinkrate
       \<and> (\<exists>k. slept (fst (blinkme cfg pixelnum color time blinkrate stopflag t0)) = of_nat k * blinkrate)"
proof -
  from assms(1) have nz: "blinkrate \<noteq> 0" by simp
  have "t0 + slept (fst (blink_loop cfg pixelnum color blinkrate stopflag t0
          (py_range (py_int (time / blinkrate))))) \<le> tr + blinkrate"
    by (rule blink_loop_latency [OF assms(1) assms(3) assms(2)])
  moreover obtain k where "slept (fst (blink_loop cfg pixelnum color blinkrate stopflag t0
          (py_range (py_int (time / blinkrate))))) = of_nat k * blinkrate"
    using blink_loop_slept_periods by blast
  ultimately show ?thesis using nz by (auto simp: blinkme_def)
qed

theorem blinkme_latency_witness:
  "(0::rat) < 2 \<and> (0::rat) \<le> 1 / 10 \<and> raised_at (1 / 10) 0 (2 / 10) = int 0
   \<and> 0 + slept (fst (blinkme default_config 0 COLOR_VFR 10 2 (raised_at (1 / 10) 0) 0)) \<le> 1 / 10 + 2"
proof -
  have h: "(0::rat) < 2" "(0::rat) \<le> 1 / 10" "\<forall>t > 1 / 10. raised_at (1 / 10) 0 t = int 0"
    by (simp_all add: raised_at_def)
  show ?thesis
    using h blinkme_latency [OF h, of default_config COLOR_VFR 10] by simp
qed

text \<open>
  Claim C5 as stated fails. A task for position 0 with a blink period of 2 s starts at
  time 0; the request for position 0 is raised at 0.1 s. The task runs its whole first
  cycle and ends at 2 s: 1.9 s after the request, more than the half period of 1 s.
\<close>

theorem blinkme_half_period_exceeded:
  "blinkme default_config 0 COLOR_VFR 10 2 (raised_at (1 / 10) 0) 0 =
     ([SetPixel 0 COLOR_CLEAR, Show, Sleep 1, SetPixel 0 COLOR_VFR, Show, Sleep 1], Returned)
   \<and> \<not> (0 + slept (fst (blinkme default_config 0 COLOR_VFR 10 2 (raised_at (1 / 10) 0) 0))
          \<le> 1 / 10 + 2 / 2)"
  by (simp add: blinkme_def py_int_def py_range_def raised_at_def default_config_def
        DONTSTOP_def upt_rec)

section \<open>Properties of the main display loop\<close>

text \<open>
  Claim C2, as the code has it. When the request fails, \<open>get_weather\<close> has logged the
  request line and nothing else, and raises; the pass of the loop raises the same
  error, and so does the loop: no later pass runs.
\<close>

theorem fetch_failure_propagates:
  assumes "env_response env = Inl e"
  shows "get_weather cfg (env_now env) (airports_file env) (env_response env)
           = ([LogInfo (''Retriving from '' @ feed_url (airports_file env))], Inl e)
       \<and> refresh_cycle cfg w env = Inl e
       \<and> main_loop cfg w (env # envs) = Inl e"
  using assms by (simp add: get_weather_def refresh_cycle_def)

theorem fetch_failure_propagates_witness:
  "env_response failing_env = Inl URLError
   \<and> main_loop default_config world0 [failing_env, nodisp_env] = Inl URLError"
proof -
  have h: "env_response failing_env = Inl URLError" by (simp add: failing_env_def)
  show ?thesis
    using h fetch_failure_propagates [OF h, of default_config world0 "[nodisp_env]"] by simp
qed

text \<open>
  Claim C2 as stated fails: with the configuration of the script, a pass whose request
  meets a transport error raises that error out of the cycle.
\<close>

theorem fetch_failure_raises:
  "refresh_cycle default_config world0
      \<lparr> disp_attached = True, airports_file = [''KBOS''], env_response = Inl URLError, env_now = 0 \<rparr>
     = Inl URLError"
  by (simp add: get_weather_def refresh_cycle_def)

text \<open>
  Claim C3 against the code, in the configuration of the script with no display
  attached and KBOS reporting 30 kt of wind. The pass starts a blink thread for
  position 0 with 4999 cycles of 2 s ahead of it, sleeps the refresh time and ends at
  1800 s without ever raising the stop flag or joining: at the top of the next pass the
  thread is still running.
\<close>

theorem thread_outlives_cycle:
  "refresh_cycle default_config world0 nodisp_env =
     Inr \<lparr> clock = 1800, STOPFLAG = (\<lambda>t. DONTSTOP),
           threads = [\<lparr> th_pixel = 0, th_color = COLOR_VFR, th_time = 9999, th_rate = 2,
                        th_start = 0 \<rparr>] \<rparr>
   \<and> live_threads default_config
        \<lparr> clock = 1800, STOPFLAG = (\<lambda>t. DONTSTOP),
          threads = [\<lparr> th_pixel = 0, th_color = COLOR_VFR, th_time = 9999, th_rate = 2,
                       th_start = 0 \<rparr>] \<rparr>
      = [\<lparr> th_pixel = 0, th_color = COLOR_VFR, th_time = 9999, th_rate = 2, th_start = 0 \<rparr>]"
proof -
  have cond: "snd (get_weather default_config 0 [''KBOS''] (Inr [windy_metar ''KBOS'']))
      = Inr [''KBOS'' \<mapsto> (null_template 5)\<lparr>flightCategory := ''VFR'', windSpeed := 30\<rparr>]"
    by (simp add: get_weather_def windy_metar_def sample_metar_def bare_metar_def metar_step_def
          null_template_def sky_layer_def)
  have led: "calc_target_colors default_config [''KBOS'']
      [''KBOS'' \<mapsto> (null_template 5)\<lparr>flightCategory := ''VFR'', windSpeed := 30\<rparr>]
      = [(COLOR_VFR, True)]"
    by (simp add: calc_target_colors_def target_entry_def null_template_def default_config_def)
  have cyc: "refresh_cycle default_config world0 nodisp_env =
     Inr \<lparr> clock = 1800, STOPFLAG = (\<lambda>t. DONTSTOP),
           threads = [\<lparr> th_pixel = 0, th_color = COLOR_VFR, th_time = 9999, th_rate = 2,
                        th_start = 0 \<rparr>] \<rparr>"
    unfolding refresh_cycle_def nodisp_env_def
    by (simp add: cond led) (simp add: default_config_def world0_def new_thread_def Let_def)
  have fl: "\<lfloor>9999 / 2 :: rat\<rfloor> = 4999" by (simp add: floor_eq_iff)
  have "slept (fst (blinkme default_config 0 COLOR_VFR 9999 2 (\<lambda>t. DONTSTOP) 0))
          = 2 * of_nat (nat (py_int (9999 / 2)))"
    by (rule blinkme_unstopped_slept) (simp_all add: DONTSTOP_def default_config_def)
  then have "slept (fst (blinkme default_config 0 COLOR_VFR 9999 2 (\<lambda>t. DONTSTOP) 0)) = 9998"
    by (simp add: py_int_def fl)
  then have "live_threads default_config
        \<lparr> clock = 1800, STOPFLAG = (\<lambda>t. DONTSTOP),
          threads = [\<lparr> th_pixel = 0, th_color = COLOR_VFR, th_time = 9999, th_rate = 2,
                       th_start = 0 \<rparr>] \<rparr>
      = [\<lparr> th_pixel = 0, th_color = COLOR_VFR, th_time = 9999, th_rate = 2, th_start = 0 \<rparr>]"
    by (simp add: live_threads_def alive_def thread_end_def thread_run_def)
  with cyc show ?thesis by simp
qed

subsection \<open>With a display attached, every blink thread is joined\<close>

text \<open>
  The branch of lines 311-347 is the one that cancels and joins. The lemmas below follow
  the blink threads through it: a thread that has ended stays ended when the clock
  advances and when the flag is raised later; a joined thread has ended; and the final
  loop joins the thread of every windy position.
\<close>

lemma thread_run_cong:
  assumes "\<forall>u \<le> T. flag' u = flag u" and "thread_end cfg flag th \<le> T"
  shows "thread_run cfg flag' th = thread_run cfg flag th"
proof (cases "th_rate th = 0")
  case True
  then show ?thesis by (simp add: thread_run_def blinkme_def)
next
  case False
  with assms(2) have "th_start th + slept (fst (blink_loop cfg (th_pixel th) (th_color th)
      (th_rate th) flag (th_start th) (py_range (py_int (th_time th / th_rate th))))) \<le> T"
    by (simp add: thread_end_def thread_run_def blinkme_def)
  from blink_loop_flag_cong [OF assms(1) this] False show ?thesis
    by (simp add: thread_run_def blinkme_def)
qed

lemma thread_end_cong:
  assumes "\<forall>u \<le> T. flag' u = flag u" and "thread_end cfg flag th \<le> T"
  shows "thread_end cfg flag' th = thread_end cfg flag th"
  using thread_run_cong [OF assms] by (simp add: thread_end_def)

lemma dead_stays_dead:
  assumes "\<not> alive cfg w th" and "clock w \<le> clock w'"
    and "\<forall>t \<le> clock w. STOPFLAG w' t = STOPFLAG w t"
  shows "\<not> alive cfg w' th"
proof -
  from assms(1) have e: "thread_end cfg (STOPFLAG w) th \<le> clock w" by (simp add: alive_def)
  from thread_end_cong [OF assms(3) e] e assms(2) show ?thesis by (simp add: alive_def)
qed

lemma stop_and_join_effect:
  assumes "stop_and_join cfg w p threadarray = Inr w'"
  shows "\<exists>th. p < length threadarray \<and> threadarray ! p = Some th \<and> \<not> alive cfg w' th"
    and "clock w \<le> clock w'" and "threads w' = threads w"
    and "\<forall>t \<le> clock w. STOPFLAG w' t = STOPFLAG w t"
    and "(\<forall>t > clock w. STOPFLAG w t = DONTSTOP) \<Longrightarrow> (\<forall>t > clock w'. STOPFLAG w' t = DONTSTOP)"
proof -
  from assms obtain th where p: "p < length threadarray" and th: "threadarray ! p = Some th"
    by (auto simp: stop_and_join_def split: if_splits option.splits)
  define raised where "raised = (\<lambda>t. if clock w < t then int p else STOPFLAG w t)"
  define t2 where "t2 = max (clock w) (thread_end cfg raised th)"
  from assms p th have w': "w' = w\<lparr>clock := t2,
      STOPFLAG := (\<lambda>t. if clock w < t \<and> t \<le> t2 then int p else STOPFLAG w t)\<rparr>"
    by (simp add: stop_and_join_def Let_def raised_def t2_def)
  show "clock w \<le> clock w'" by (simp add: w' t2_def)
  show "threads w' = threads w" by (simp add: w')
  show "\<forall>t \<le> clock w. STOPFLAG w' t = STOPFLAG w t" by (simp add: w')
  show "\<forall>t > clock w'. STOPFLAG w' t = DONTSTOP" if "\<forall>t > clock w. STOPFLAG w t = DONTSTOP"
    using that by (auto simp: w' t2_def)
  have agree: "\<forall>u \<le> t2. STOPFLAG w' u = raised u" by (simp add: w' raised_def)
  have "thread_end cfg raised th \<le> t2" by (simp add: t2_def)
  from thread_end_cong [OF agree this] this have "\<not> alive cfg w' th"
    by (simp add: alive_def w')
  with p th show "\<exists>th. p < length threadarray \<and> threadarray ! p = Some th \<and> \<not> alive cfg w' th"
    by blast
qed


lemma alive_threads_update [simp]:
  "alive cfg (w\<lparr>threads := ths\<rparr>) th = alive cfg w th"
  by (simp add: alive_def)

lemma drop_eq_ConsD:
  assumes "s # rest = drop p xs"
  shows "p < length xs" and "s = xs ! p" and "rest = drop (Suc p) xs"
proof -
  show p: "p < length xs"
  proof (rule ccontr)
    assume "\<not> p < length xs"
    then have "drop p xs = []" by simp
    with assms show False by simp
  qed
  have "xs ! p # drop (Suc p) xs = s # rest"
    using Cons_nth_drop_Suc [OF p] unfolding assms [symmetric] .
  then show "s = xs ! p" and "rest = drop (Suc p) xs"
    by simp_all
qed

lemma registered_I:
  assumes "\<forall>t > clock w. STOPFLAG w t = DONTSTOP"
    and "\<And>th. th \<in> set (threads w) \<Longrightarrow> alive cfg w th \<Longrightarrow>
          \<exists>q. p \<le> q \<and> q < length threadarray \<and> q < length ledstate \<and>
             snd (ledstate ! q) \<and> threadarray ! q = Some th"
  shows "registered cfg ledstate p w threadarray"
  using assms unfolding registered_def by blast

lemma registered_D:
  assumes "registered cfg ledstate p w threadarray"
  shows "\<forall>t > clock w. STOPFLAG w t = DONTSTOP"
    and "\<And>th. th \<in> set (threads w) \<Longrightarrow> alive cfg w th \<Longrightarrow>
          \<exists>q. p \<le> q \<and> q < length threadarray \<and> q < length ledstate \<and>
             snd (ledstate ! q) \<and> threadarray ! q = Some th"
  using assms unfolding registered_def by blast+

lemma start_threads_registered:
  assumes "start_threads cfg rest p (w, threadarray) = (w', threadarray')"
    and "rest = drop p ledstate" and "length threadarray = p"
    and "registered cfg ledstate 0 w threadarray" and "p \<le> length ledstate"
  shows "registered cfg ledstate 0 w' threadarray' \<and> length threadarray' = length ledstate
       \<and> clock w' = clock w \<and> STOPFLAG w' = STOPFLAG w"
  using assms
proof (induction rest arbitrary: p w threadarray)
  case Nil
  then show ?case by simp
next
  case (Cons s rest)
  from Cons.prems(2) have p: "p < length ledstate" and s: "s = ledstate ! p"
    and rest: "rest = drop (Suc p) ledstate"
    by (simp_all add: drop_eq_ConsD)
  from p have sp: "Suc p \<le> length ledstate" by simp
  note quiet = registered_D(1) [OF Cons.prems(4)]
  show ?case
  proof (cases "snd s")
    case True
    define x where "x = new_thread cfg w p (fst s)"
    define w1 where "w1 = w\<lparr>threads := threads w @ [x]\<rparr>"
    from Cons.prems(1) True have run: "start_threads cfg rest (Suc p)
        (w1, threadarray @ [Some x]) = (w', threadarray')"
      by (simp add: x_def w1_def Let_def)
    have len: "length (threadarray @ [Some x]) = Suc p" using Cons.prems(3) by simp
    have reg: "registered cfg ledstate 0 w1 (threadarray @ [Some x])"
    proof (rule registered_I)
      show "\<forall>t > clock w1. STOPFLAG w1 t = DONTSTOP"
        using quiet by (simp add: w1_def)
    next
      fix th
      assume th: "th \<in> set (threads w1)" and al: "alive cfg w1 th"
      from al have al': "alive cfg w th" by (simp add: w1_def)
      show "\<exists>q. 0 \<le> q \<and> q < length (threadarray @ [Some x]) \<and> q < length ledstate \<and>
          snd (ledstate ! q) \<and> (threadarray @ [Some x]) ! q = Some th"
      proof (cases "th \<in> set (threads w)")
        case True
        from registered_D(2) [OF Cons.prems(4) True al'] obtain q where
          q: "q < length threadarray" "q < length ledstate"
          "snd (ledstate ! q)" "threadarray ! q = Some th"
          by blast
        then show ?thesis by (intro exI [of _ q]) (simp add: nth_append)
      next
        case False
        with th have "th = x" by (simp add: w1_def)
        with p s True Cons.prems(3) show ?thesis
          by (intro exI [of _ p]) (simp add: nth_append)
      qed
    qed
    from Cons.IH [OF run rest len reg sp] show ?thesis by (simp add: w1_def)
  next
    case False
    with Cons.prems(1) have run: "start_threads cfg rest (Suc p) (w, threadarray @ [None])
        = (w', threadarray')"
      by simp
    have len: "length (threadarray @ [None]) = Suc p" using Cons.prems(3) by simp
    have reg: "registered cfg ledstate 0 w (threadarray @ [None])"
    proof (rule registered_I)
      show "\<forall>t > clock w. STOPFLAG w t = DONTSTOP" by (rule quiet)
    next
      fix th
      assume th: "th \<in> set (threads w)" and al: "alive cfg w th"
      from registered_D(2) [OF Cons.prems(4) th al] obtain q where
        q: "q < length threadarray" "q < length ledstate"
        "snd (ledstate ! q)" "threadarray ! q = Some th"
        by blast
      then show "\<exists>q. 0 \<le> q \<and> q < length (threadarray @ [None]) \<and> q < length ledstate \<and>
          snd (ledstate ! q) \<and> (threadarray @ [None]) ! q = Some th"
        by (intro exI [of _ q]) (simp add: nth_append)
    qed
    from Cons.IH [OF run rest len reg sp] show ?thesis by simp
  qed
qed

lemma kill_all_dead:
  assumes "kill_all cfg rest p threadarray w = Inr w'"
    and "rest = drop p ledstate" and "length threadarray = length ledstate"
    and "registered cfg ledstate p w threadarray"
  shows "(\<forall>th \<in> set (threads w'). \<not> alive cfg w' th) \<and> threads w' = threads w
       \<and> (\<forall>t > clock w'. STOPFLAG w' t = DONTSTOP)"
  using assms
proof (induction rest arbitrary: p w)
  case Nil
  then have le: "length ledstate \<le> p" by simp
  from Nil.prems(1) have w': "w' = w" by simp
  have "\<not> alive cfg w th" if "th \<in> set (threads w)" for th
  proof
    assume "alive cfg w th"
    from registered_D(2) [OF Nil.prems(4) that this] le show False by auto
  qed
  with registered_D(1) [OF Nil.prems(4)] w' show ?case by simp
next
  case (Cons s rest)
  from Cons.prems(2) have p: "p < length ledstate" and s: "s = ledstate ! p"
    and rest: "rest = drop (Suc p) ledstate"
    by (simp_all add: drop_eq_ConsD)
  note quiet = registered_D(1) [OF Cons.prems(4)]
  show ?case
  proof (cases "snd s")
    case True
    with Cons.prems(1) obtain w1 where j: "stop_and_join cfg w p threadarray = Inr w1"
      and run: "kill_all cfg rest (Suc p) threadarray w1 = Inr w'"
      by (cases "stop_and_join cfg w p threadarray") simp_all
    note e = stop_and_join_effect [OF j]
    from e(1) obtain th0 where th0: "threadarray ! p = Some th0" "\<not> alive cfg w1 th0" by blast
    have reg: "registered cfg ledstate (Suc p) w1 threadarray"
    proof (rule registered_I)
      show "\<forall>t > clock w1. STOPFLAG w1 t = DONTSTOP"
        using e(5) quiet by blast
    next
      fix th
      assume th: "th \<in> set (threads w1)" and al: "alive cfg w1 th"
      from al dead_stays_dead [OF _ e(2) e(4)] have al': "alive cfg w th" by blast
      from th e(3) have "th \<in> set (threads w)" by simp
      from registered_D(2) [OF Cons.prems(4) this al'] obtain q where q: "p \<le> q"
        "q < length threadarray" "q < length ledstate" "snd (ledstate ! q)" "threadarray ! q = Some th"
        by blast
      from q(5) th0 al have "q \<noteq> p" by auto
      with q show "\<exists>q. Suc p \<le> q \<and> q < length threadarray \<and> q < length ledstate \<and>
          snd (ledstate ! q) \<and> threadarray ! q = Some th"
        by (intro exI [of _ q]) simp
    qed
    from Cons.IH [OF run rest Cons.prems(3) reg] e(3) show ?thesis by simp
  next
    case False
    with Cons.prems(1) have run: "kill_all cfg rest (Suc p) threadarray w = Inr w'" by simp
    have reg: "registered cfg ledstate (Suc p) w threadarray"
    proof (rule registered_I)
      show "\<forall>t > clock w. STOPFLAG w t = DONTSTOP" by (rule quiet)
    next
      fix th
      assume th: "th \<in> set (threads w)" and al: "alive cfg w th"
      from registered_D(2) [OF Cons.prems(4) th al] obtain q where q: "p \<le> q"
        "q < length threadarray" "q < length ledstate" "snd (ledstate ! q)" "threadarray ! q = Some th"
        by blast
      from q(4) False s have "q \<noteq> p" by auto
      with q show "\<exists>q. Suc p \<le> q \<and> q < length threadarray \<and> q < length ledstate \<and>
          snd (ledstate ! q) \<and> threadarray ! q = Some th"
        by (intro exI [of _ q]) simp
    qed
    from Cons.IH [OF run rest Cons.prems(3) reg] show ?thesis by simp
  qed
qed

lemma rotate_station_registered:
  assumes "rotate_station cfg conditionDict ledstate p metarStation (w, threadarray) = Inr (w', threadarray')"
    and "length threadarray = length ledstate"
    and "registered cfg ledstate 0 w threadarray"
  shows "registered cfg ledstate 0 w' threadarray' \<and> length threadarray' = length ledstate"
proof -
  define joining where "joining = (FAST_BLINK_DISPLAYED_STATION cfg \<and> snd (ledstate ! p))"
  obtain w1 where w1: "(if joining then stop_and_join cfg w p threadarray else Inr w) = Inr w1"
    using assms(1) unfolding rotate_station_def joining_def
    by (cases "if FAST_BLINK_DISPLAYED_STATION cfg \<and> snd (ledstate ! p)
               then stop_and_join cfg w p threadarray else Inr w") simp_all
  have step1: "clock w \<le> clock w1" "threads w1 = threads w"
    "\<forall>t \<le> clock w. STOPFLAG w1 t = STOPFLAG w t"
    "\<forall>t > clock w1. STOPFLAG w1 t = DONTSTOP"
    "joining \<longrightarrow> (\<exists>th. p < length threadarray \<and> threadarray ! p = Some th \<and> \<not> alive cfg w1 th)"
  proof -
    show "clock w \<le> clock w1" using w1 stop_and_join_effect(2) [of cfg w p threadarray w1]
      by (cases joining) simp_all
    show "threads w1 = threads w" using w1 stop_and_join_effect(3) [of cfg w p threadarray w1]
      by (cases joining) simp_all
    show "\<forall>t \<le> clock w. STOPFLAG w1 t = STOPFLAG w t"
      using w1 stop_and_join_effect(4) [of cfg w p threadarray w1]
      by (cases joining) simp_all
    show "\<forall>t > clock w1. STOPFLAG w1 t = DONTSTOP"
      using w1 stop_and_join_effect(5) [of cfg w p threadarray w1] registered_D(1) [OF assms(3)]
      by (cases joining) simp_all
    show "joining \<longrightarrow> (\<exists>th. p < length threadarray \<and> threadarray ! p = Some th \<and> \<not> alive cfg w1 th)"
      using w1 stop_and_join_effect(1) [of cfg w p threadarray w1] by (cases joining) simp_all
  qed
  have reg1: "registered cfg ledstate 0 w1 threadarray"
  proof (rule registered_I)
    show "\<forall>t > clock w1. STOPFLAG w1 t = DONTSTOP" by (rule step1(4))
  next
    fix th
    assume th: "th \<in> set (threads w1)" and al: "alive cfg w1 th"
    from al dead_stays_dead [OF _ step1(1) step1(3)] have al': "alive cfg w th" by blast
    from th step1(2) have "th \<in> set (threads w)" by simp
    from registered_D(2) [OF assms(3) this al']
    show "\<exists>q. 0 \<le> q \<and> q < length threadarray \<and> q < length ledstate \<and>
          snd (ledstate ! q) \<and> threadarray ! q = Some th" .
  qed
  from assms(1) w1 have rest: "(if metarStation \<noteq> ''NULL'' \<and> conditionDict metarStation \<noteq> None then
             if FAST_BLINK_DISPLAYED_STATION cfg then
               (case blinkme cfg p (fst (ledstate ! p)) (DISPLAY_ROTATION_SPEED cfg)
                       (FAST_BLINK_SPEED cfg) (STOPFLAG w1) (clock w1) of
                  (evs, Raised e) \<Rightarrow> Inl e
                | (evs, Returned) \<Rightarrow>
                    if LED_COUNT cfg \<le> p then Inl IndexError
                    else
                      let w2 = w1\<lparr>clock := clock w1 + slept evs\<rparr>
                      in if snd (ledstate ! p) then
                           let x = new_thread cfg w2 p (fst (ledstate ! p))
                           in Inr (w2\<lparr>threads := threads w2 @ [x]\<rparr>, threadarray[p := Some x])
                         else Inr (w2, threadarray))
             else if DISPLAY_ROTATION_SPEED cfg < 0 then Inl ValueError
             else Inr (w1\<lparr>clock := clock w1 + DISPLAY_ROTATION_SPEED cfg\<rparr>, threadarray)
           else Inr (w1, threadarray)) = Inr (w', threadarray')"
    unfolding rotate_station_def joining_def by simp
  have adv: "registered cfg ledstate 0 (w1\<lparr>clock := clock w1 + d\<rparr>) threadarray" if "0 \<le> d" for d
  proof (rule registered_I)
    show "\<forall>t > clock (w1\<lparr>clock := clock w1 + d\<rparr>). STOPFLAG (w1\<lparr>clock := clock w1 + d\<rparr>) t = DONTSTOP"
      using step1(4) that by simp
  next
    fix th
    assume th: "th \<in> set (threads (w1\<lparr>clock := clock w1 + d\<rparr>))"
      and al: "alive cfg (w1\<lparr>clock := clock w1 + d\<rparr>) th"
    from al that have al': "alive cfg w1 th" by (simp add: alive_def)
    from th have "th \<in> set (threads w1)" by simp
    from registered_D(2) [OF reg1 this al']
    show "\<exists>q. 0 \<le> q \<and> q < length threadarray \<and> q < length ledstate \<and>
          snd (ledstate ! q) \<and> threadarray ! q = Some th" .
  qed
  consider (none) "w' = w1" "threadarray' = threadarray"
    | (sleep) "0 \<le> DISPLAY_ROTATION_SPEED cfg"
        "w' = w1\<lparr>clock := clock w1 + DISPLAY_ROTATION_SPEED cfg\<rparr>" "threadarray' = threadarray"
    | (fast) evs where "FAST_BLINK_DISPLAYED_STATION cfg" "0 \<le> slept evs" "\<not> snd (ledstate ! p)"
        "w' = w1\<lparr>clock := clock w1 + slept evs\<rparr>" "threadarray' = threadarray"
    | (restart) evs x where "FAST_BLINK_DISPLAYED_STATION cfg" "0 \<le> slept evs" "snd (ledstate ! p)"
        "w' = w1\<lparr>clock := clock w1 + slept evs, threads := threads w1 @ [x]\<rparr>"
        "threadarray' = threadarray[p := Some x]"
  proof (cases "metarStation \<noteq> ''NULL'' \<and> conditionDict metarStation \<noteq> None")
    case False
    with rest have "w' = w1" "threadarray' = threadarray" by auto
    then show ?thesis by (rule none)
  next
    case shown: True
    show ?thesis
    proof (cases "FAST_BLINK_DISPLAYED_STATION cfg")
      case False
      with rest shown have "0 \<le> DISPLAY_ROTATION_SPEED cfg"
        "w' = w1\<lparr>clock := clock w1 + DISPLAY_ROTATION_SPEED cfg\<rparr>" "threadarray' = threadarray"
        by (auto split: if_splits)
      then show ?thesis by (rule sleep)
    next
      case True
      obtain evs res where b: "blinkme cfg p (fst (ledstate ! p)) (DISPLAY_ROTATION_SPEED cfg)
                       (FAST_BLINK_SPEED cfg) (STOPFLAG w1) (clock w1) = (evs, res)"
        by (cases "blinkme cfg p (fst (ledstate ! p)) (DISPLAY_ROTATION_SPEED cfg)
                       (FAST_BLINK_SPEED cfg) (STOPFLAG w1) (clock w1)")
      have nn: "0 \<le> slept evs"
        using blinkme_slept_nonneg [of cfg p "fst (ledstate ! p)" "DISPLAY_ROTATION_SPEED cfg"
            "FAST_BLINK_SPEED cfg" "STOPFLAG w1" "clock w1"] b by simp
      from rest shown True b have res: "res = Returned" and led: "\<not> LED_COUNT cfg \<le> p"
        by (cases res; simp split: if_splits)+
      show ?thesis
      proof (cases "snd (ledstate ! p)")
        case False
        with rest shown True b res led
        have "w' = w1\<lparr>clock := clock w1 + slept evs\<rparr>" "threadarray' = threadarray"
          by simp_all
        with True nn False show ?thesis by (rule fast)
      next
        case windy: True
        with rest shown True b res led
        have "w' = w1\<lparr>clock := clock w1 + slept evs,
                 threads := threads w1 @ [new_thread cfg (w1\<lparr>clock := clock w1 + slept evs\<rparr>) p (fst (ledstate ! p))]\<rparr>"
          "threadarray' = threadarray[p := Some (new_thread cfg (w1\<lparr>clock := clock w1 + slept evs\<rparr>) p (fst (ledstate ! p)))]"
          by (simp_all add: Let_def)
        with True nn windy show ?thesis by (rule restart)
      qed
    qed
  qed
  then show ?thesis
  proof cases
    case none
    with reg1 assms(2) show ?thesis by simp
  next
    case sleep
    with adv [OF sleep(1)] assms(2) show ?thesis by simp
  next
    case fast
    with adv [OF fast(2)] assms(2) show ?thesis by simp
  next
    case restart
    from restart(1,3) have "joining" by (simp add: joining_def)
    with step1(5) obtain th0 where th0: "p < length threadarray" "threadarray ! p = Some th0"
      "\<not> alive cfg w1 th0" by blast
    define w2 where "w2 = w1\<lparr>clock := clock w1 + slept evs\<rparr>"
    have reg2: "registered cfg ledstate 0 w2 threadarray"
      unfolding w2_def by (rule adv [OF restart(2)])
    have dead0: "\<not> alive cfg w2 th0"
      using th0(3) restart(2) by (simp add: alive_def w2_def)
    have w': "w' = w2\<lparr>threads := threads w2 @ [x]\<rparr>"
      by (simp add: restart(4) w2_def)
    have "registered cfg ledstate 0 w' (threadarray[p := Some x])"
    proof (rule registered_I)
      show "\<forall>t > clock w'. STOPFLAG w' t = DONTSTOP"
        using registered_D(1) [OF reg2] by (simp add: w')
    next
      fix th
      assume th: "th \<in> set (threads w')" and al: "alive cfg w' th"
      from al have al2: "alive cfg w2 th" by (simp add: w')
      show "\<exists>q. 0 \<le> q \<and> q < length (threadarray[p := Some x]) \<and> q < length ledstate \<and>
          snd (ledstate ! q) \<and> (threadarray[p := Some x]) ! q = Some th"
      proof (cases "th \<in> set (threads w2)")
        case True
        from registered_D(2) [OF reg2 True al2] obtain q where
          q: "q < length threadarray" "q < length ledstate"
          "snd (ledstate ! q)" "threadarray ! q = Some th"
          by blast
        from q(4) th0(2) dead0 al2 have "q \<noteq> p" by auto
        with q show ?thesis by (intro exI [of _ q]) simp
      next
        case False
        with th have "th = x" by (simp add: w')
        with th0(1) assms(2) restart(3) show ?thesis
          by (intro exI [of _ p]) simp
      qed
    qed
    with restart(5) assms(2) show ?thesis by simp
  qed
qed

lemma rotate_pass_registered:
  assumes "rotate_pass cfg conditionDict ledstate p stations s = Inr s'"
    and "length (snd s) = length ledstate"
    and "registered cfg ledstate 0 (fst s) (snd s)"
  shows "registered cfg ledstate 0 (fst s') (snd s') \<and> length (snd s') = length ledstate"
  using assms
proof (induction stations arbitrary: p s)
  case Nil
  then show ?case by simp
next
  case (Cons metarStation rest)
  from Cons.prems(1) obtain s1 where
    st: "rotate_station cfg conditionDict ledstate p metarStation s = Inr s1"
    and run: "rotate_pass cfg conditionDict ledstate (Suc p) rest s1 = Inr s'"
    by (cases "rotate_station cfg conditionDict ledstate p metarStation s") simp_all
  from st have "rotate_station cfg conditionDict ledstate p metarStation (fst s, snd s)
      = Inr (fst s1, snd s1)" by simp
  from rotate_station_registered [OF this Cons.prems(2,3)]
  have "registered cfg ledstate 0 (fst s1) (snd s1)" "length (snd s1) = length ledstate"
    by simp_all
  from Cons.IH [OF run this(2,1)] show ?case .
qed

lemma rotate_loops_registered:
  assumes "rotate_loops cfg conditionDict ledstate stations ls s = Inr s'"
    and "length (snd s) = length ledstate"
    and "registered cfg ledstate 0 (fst s) (snd s)"
  shows "registered cfg ledstate 0 (fst s') (snd s') \<and> length (snd s') = length ledstate"
  using assms
proof (induction ls arbitrary: s)
  case Nil
  then show ?case by simp
next
  case (Cons l ls)
  from Cons.prems(1) obtain s1 where
    st: "rotate_pass cfg conditionDict ledstate 0 stations s = Inr s1"
    and run: "rotate_loops cfg conditionDict ledstate stations ls s1 = Inr s'"
    by (cases "rotate_pass cfg conditionDict ledstate 0 stations s") simp_all
  from rotate_pass_registered [OF st Cons.prems(2,3)]
  have "registered cfg ledstate 0 (fst s1) (snd s1)" "length (snd s1) = length ledstate"
    by simp_all
  from Cons.IH [OF run this(2,1)] show ?case .
qed

text \<open>
  A pass with a display attached that starts with no blink thread running ends with no
  blink thread running, and so does any number of such passes.
\<close>

lemma display_cycle_joins_all:
  assumes "refresh_cycle cfg w env = Inr w'" and "disp_attached env"
    and "\<forall>t > clock w. STOPFLAG w t = DONTSTOP"
    and "\<forall>th \<in> set (threads w). \<not> alive cfg w th"
  shows "live_threads cfg w' = [] \<and> (\<forall>t > clock w'. STOPFLAG w' t = DONTSTOP)"
proof -
  define airports where "airports = airports_file env"
  obtain conditionDict where
    cd: "snd (get_weather cfg (env_now env) airports (env_response env)) = Inr conditionDict"
    using assms(1) unfolding refresh_cycle_def airports_def
    by (cases "snd (get_weather cfg (env_now env) (airports_file env) (env_response env))")
       (simp_all add: Let_def)
  let ?ledstate = "calc_target_colors cfg airports conditionDict"
  define loops where "loops = py_range (py_int (REFRESH_TIME_SECONDS cfg /
                                  (DISPLAY_ROTATION_SPEED cfg * of_nat (length airports))))"
  obtain w1 threadarray where st: "start_threads cfg ?ledstate 0 (w, []) = (w1, threadarray)"
    by (cases "start_threads cfg ?ledstate 0 (w, [])")
  from assms(1,2) cd st have body:
    "(case rotate_loops cfg conditionDict ?ledstate airports loops (w1, threadarray) of
        Inl e \<Rightarrow> Inl e
      | Inr (w2, threadarray') \<Rightarrow> kill_all cfg ?ledstate 0 threadarray' w2) = Inr w'"
    unfolding refresh_cycle_def airports_def [symmetric] Let_def loops_def [symmetric]
    by (simp split: if_splits)
  then obtain w2 threadarray' where
    rot: "rotate_loops cfg conditionDict ?ledstate airports loops (w1, threadarray) = Inr (w2, threadarray')"
    and kill: "kill_all cfg ?ledstate 0 threadarray' w2 = Inr w'"
    by (cases "rotate_loops cfg conditionDict ?ledstate airports loops (w1, threadarray)") auto
  have reg0: "registered cfg ?ledstate 0 w []"
    using assms(3,4) by (intro registered_I) blast+
  from start_threads_registered [OF st _ _ reg0]
  have reg1: "registered cfg ?ledstate 0 w1 threadarray" and len1: "length threadarray = length ?ledstate"
    by simp_all
  from rotate_loops_registered [OF rot] reg1 len1
  have reg2: "registered cfg ?ledstate 0 w2 threadarray'" and len2: "length threadarray' = length ?ledstate"
    by simp_all
  from kill_all_dead [OF kill _ len2 reg2]
  have "\<forall>th \<in> set (threads w'). \<not> alive cfg w' th" and "\<forall>t > clock w'. STOPFLAG w' t = DONTSTOP"
    by simp_all
  then show ?thesis by (simp add: live_threads_def filter_empty_conv)
qed

lemma display_loop_joins_all:
  assumes "main_loop cfg w envs = Inr w'" and "\<forall>env \<in> set envs. disp_attached env"
    and "\<forall>t > clock w. STOPFLAG w t = DONTSTOP"
    and "live_threads cfg w = []"
  shows "live_threads cfg w' = []"
  using assms
proof (induction envs arbitrary: w)
  case Nil
  then show ?case by simp
next
  case (Cons env envs)
  from Cons.prems(1) obtain w1 where c: "refresh_cycle cfg w env = Inr w1"
    and run: "main_loop cfg w1 envs = Inr w'"
    by (cases "refresh_cycle cfg w env") simp_all
  from Cons.prems(4) have "\<forall>th \<in> set (threads w). \<not> alive cfg w th"
    by (simp add: live_threads_def filter_empty_conv)
  from display_cycle_joins_all [OF c _ Cons.prems(3) this] Cons.prems(2)
  have "live_threads cfg w1 = []" "\<forall>t > clock w1. STOPFLAG w1 t = DONTSTOP" by simp_all
  from Cons.IH [OF run _ this(2,1)] Cons.prems(2) show ?case by simp
qed

text \<open>
  Such a pass does complete, for a feed that \<open>get_weather\<close> accepts, a non-empty
  airports list that fits the strip, and positive dwell and fast-blink periods: no
  statement of the branch raises.
\<close>

lemma start_threads_slots:
  assumes "start_threads cfg rest p (w, threadarray) = (w', threadarray')"
    and "rest = drop p ledstate" and "length threadarray = p" and "p \<le> length ledstate"
    and "\<forall>q < p. snd (ledstate ! q) \<longrightarrow> threadarray ! q \<noteq> None"
  shows "slots ledstate threadarray'"
  using assms
proof (induction rest arbitrary: p w threadarray)
  case Nil
  then show ?case by (simp add: slots_def)
next
  case (Cons s rest)
  from Cons.prems(2) have p: "p < length ledstate" and s: "s = ledstate ! p"
    and rest: "rest = drop (Suc p) ledstate"
    by (simp_all add: drop_eq_ConsD)
  from p have sp: "Suc p \<le> length ledstate" by simp
  show ?case
  proof (cases "snd s")
    case True
    define x where "x = new_thread cfg w p (fst s)"
    from Cons.prems(1) True have run: "start_threads cfg rest (Suc p)
        (w\<lparr>threads := threads w @ [x]\<rparr>, threadarray @ [Some x]) = (w', threadarray')"
      by (simp add: x_def Let_def)
    have len: "length (threadarray @ [Some x]) = Suc p" using Cons.prems(3) by simp
    have "\<forall>q < Suc p. snd (ledstate ! q) \<longrightarrow> (threadarray @ [Some x]) ! q \<noteq> None"
      using Cons.prems(3,5) by (simp add: nth_append less_Suc_eq)
    from Cons.IH [OF run rest len sp this] show ?thesis .
  next
    case False
    with Cons.prems(1) have run: "start_threads cfg rest (Suc p) (w, threadarray @ [None])
        = (w', threadarray')"
      by simp
    have len: "length (threadarray @ [None]) = Suc p" using Cons.prems(3) by simp
    have "\<forall>q < Suc p. snd (ledstate ! q) \<longrightarrow> (threadarray @ [None]) ! q \<noteq> None"
      using Cons.prems(3,5) False s by (auto simp: nth_append less_Suc_eq)
    from Cons.IH [OF run rest len sp this] show ?thesis .
  qed
qed

lemma stop_and_join_succeeds:
  assumes "slots ledstate threadarray" and "p < length ledstate" and "snd (ledstate ! p)"
  shows "\<exists>w'. stop_and_join cfg w p threadarray = Inr w'"
proof -
  from assms have "p < length threadarray" and "threadarray ! p \<noteq> None"
    by (simp_all add: slots_def)
  then obtain th where "threadarray ! p = Some th" by blast
  with \<open>p < length threadarray\<close> show ?thesis
    by (simp add: stop_and_join_def Let_def)
qed

lemma rotate_station_succeeds:
  assumes "slots ledstate threadarray" and "p < length ledstate" and "length ledstate \<le> LED_COUNT cfg"
    and "0 < FAST_BLINK_SPEED cfg" and "0 \<le> DISPLAY_ROTATION_SPEED cfg"
  shows "\<exists>w' threadarray'. rotate_station cfg conditionDict ledstate p metarStation (w, threadarray)
           = Inr (w', threadarray') \<and> slots ledstate threadarray'"
proof -
  from assms(2,3) have led: "p < LED_COUNT cfg" by simp
  have "\<exists>w1. (if FAST_BLINK_DISPLAYED_STATION cfg \<and> snd (ledstate ! p)
             then stop_and_join cfg w p threadarray else Inr w) = Inr w1"
  proof (cases "FAST_BLINK_DISPLAYED_STATION cfg \<and> snd (ledstate ! p)")
    case True
    with stop_and_join_succeeds [OF assms(1,2), of cfg w] show ?thesis by simp
  next
    case False
    then show ?thesis by auto
  qed
  then obtain w1 where w1: "(if FAST_BLINK_DISPLAYED_STATION cfg \<and> snd (ledstate ! p)
             then stop_and_join cfg w p threadarray else Inr w) = Inr w1"
    by blast
  obtain evs where b: "blinkme cfg p (fst (ledstate ! p)) (DISPLAY_ROTATION_SPEED cfg)
                       (FAST_BLINK_SPEED cfg) (STOPFLAG w1) (clock w1) = (evs, Returned)"
    using blinkme_returns [OF led assms(4), of "fst (ledstate ! p)" "DISPLAY_ROTATION_SPEED cfg"
        "STOPFLAG w1" "clock w1"]
    by (cases "blinkme cfg p (fst (ledstate ! p)) (DISPLAY_ROTATION_SPEED cfg)
                       (FAST_BLINK_SPEED cfg) (STOPFLAG w1) (clock w1)") simp
  have upd: "slots ledstate (threadarray[p := Some x])" for x
    unfolding slots_def
  proof (intro conjI allI impI)
    show "length (threadarray[p := Some x]) = length ledstate"
      using assms(1) by (simp add: slots_def)
  next
    fix q
    assume q: "q < length (threadarray[p := Some x])" and windy: "snd (ledstate ! q)"
    show "threadarray[p := Some x] ! q \<noteq> None"
    proof (cases "q = p")
      case True
      with q show ?thesis by simp
    next
      case False
      with q windy assms(1) show ?thesis by (simp add: slots_def)
    qed
  qed
  show ?thesis
    unfolding rotate_station_def using w1 b led assms(1,5) upd
    by (simp add: Let_def)
qed

lemma rotate_pass_succeeds:
  assumes "slots ledstate (snd s)" and "p + length stations \<le> length ledstate"
    and "length ledstate \<le> LED_COUNT cfg"
    and "0 < FAST_BLINK_SPEED cfg" and "0 \<le> DISPLAY_ROTATION_SPEED cfg"
  shows "\<exists>s'. rotate_pass cfg conditionDict ledstate p stations s = Inr s' \<and> slots ledstate (snd s')"
  using assms(1,2)
proof (induction stations arbitrary: p s)
  case Nil
  then show ?case by simp
next
  case (Cons metarStation rest)
  from Cons.prems(2) have p: "p < length ledstate" and r: "Suc p + length rest \<le> length ledstate"
    by simp_all
  from rotate_station_succeeds [OF Cons.prems(1) p assms(3,4,5), of conditionDict metarStation "fst s"]
  obtain w' threadarray' where
    st: "rotate_station cfg conditionDict ledstate p metarStation s = Inr (w', threadarray')"
    and sl: "slots ledstate threadarray'"
    by auto
  from Cons.IH [of "(w', threadarray')" "Suc p"] sl r st show ?case by simp
qed

lemma rotate_loops_succeeds:
  assumes "slots ledstate (snd s)" and "length stations \<le> length ledstate"
    and "length ledstate \<le> LED_COUNT cfg"
    and "0 < FAST_BLINK_SPEED cfg" and "0 \<le> DISPLAY_ROTATION_SPEED cfg"
  shows "\<exists>s'. rotate_loops cfg conditionDict ledstate stations ls s = Inr s' \<and> slots ledstate (snd s')"
  using assms(1)
proof (induction ls arbitrary: s)
  case Nil
  then show ?case by simp
next
  case (Cons l ls)
  from rotate_pass_succeeds [OF Cons.prems(1) _ assms(3,4,5), of 0 stations conditionDict] assms(2)
  obtain s1 where st: "rotate_pass cfg conditionDict ledstate 0 stations s = Inr s1"
    and sl: "slots ledstate (snd s1)"
    by auto
  from Cons.IH [OF sl] st show ?case by simp
qed

lemma kill_all_succeeds:
  assumes "slots ledstate threadarray"
  shows "rest = drop p ledstate \<Longrightarrow> \<exists>w'. kill_all cfg rest p threadarray w = Inr w'"
proof (induction rest arbitrary: p w)
  case Nil
  show ?case by simp
next
  case (Cons s rest)
  from Cons.prems have p: "p < length ledstate" and s: "s = ledstate ! p"
    and rest: "rest = drop (Suc p) ledstate"
    by (simp_all add: drop_eq_ConsD)
  show ?case
  proof (cases "snd s")
    case True
    with s stop_and_join_succeeds [OF assms p, of cfg w] obtain w1 where
      "stop_and_join cfg w p threadarray = Inr w1" by auto
    with Cons.IH [OF rest, of w1] True show ?thesis by simp
  next
    case False
    with Cons.IH [OF rest, of w] show ?thesis by simp
  qed
qed

lemma display_cycle_succeeds:
  assumes "snd (get_weather cfg (env_now env) (airports_file env) (env_response env)) = Inr conditionDict"
    and "disp_attached env" and "airports_file env \<noteq> []"
    and "length (airports_file env) \<le> LED_COUNT cfg"
    and "0 < DISPLAY_ROTATION_SPEED cfg" and "0 < FAST_BLINK_SPEED cfg"
  shows "\<exists>w'. refresh_cycle cfg w env = Inr w'"
proof -
  let ?airports = "airports_file env"
  let ?ledstate = "calc_target_colors cfg ?airports conditionDict"
  let ?loops = "py_range (py_int (REFRESH_TIME_SECONDS cfg /
                                  (DISPLAY_ROTATION_SPEED cfg * of_nat (length ?airports))))"
  have len: "length ?ledstate = length ?airports" by (simp add: calc_target_colors_map)
  obtain w1 threadarray where st: "start_threads cfg ?ledstate 0 (w, []) = (w1, threadarray)"
    by (cases "start_threads cfg ?ledstate 0 (w, [])")
  from start_threads_slots [OF st] have sl1: "slots ?ledstate threadarray" by simp
  from assms(5) have rot: "0 \<le> DISPLAY_ROTATION_SPEED cfg" by simp
  from rotate_loops_succeeds [of ?ledstate "(w1, threadarray)" ?airports cfg conditionDict ?loops]
    sl1 len assms(4,6) rot
  obtain w2 threadarray' where
    r: "rotate_loops cfg conditionDict ?ledstate ?airports ?loops (w1, threadarray) = Inr (w2, threadarray')"
    and sl2: "slots ?ledstate threadarray'"
    by auto
  from kill_all_succeeds [OF sl2, of ?ledstate 0 cfg w2] obtain w' where
    k: "kill_all cfg ?ledstate 0 threadarray' w2 = Inr w'" by auto
  from assms(3,5) have nz: "DISPLAY_ROTATION_SPEED cfg * of_nat (length ?airports) \<noteq> 0" by simp
  have "refresh_cycle cfg w env = Inr w'"
    unfolding refresh_cycle_def Let_def using assms(1,2,4) nz len st r k by simp
  then show ?thesis ..
qed

text \<open>
  The shipped configuration with a display attached, on the feed that reports KBOS with
  30 kt of wind: the pass completes and leaves no blink thread running.
\<close>

lemma display_cycle_example:
  "\<exists>w. refresh_cycle default_config world0 disp_env = Inr w \<and> live_threads default_config w = []"
proof -
  have cond: "snd (get_weather default_config (env_now disp_env) (airports_file disp_env)
                (env_response disp_env))
      = Inr [''KBOS'' \<mapsto> (null_template 5)\<lparr>flightCategory := ''VFR'', windSpeed := 30\<rparr>]"
    by (simp add: disp_env_def get_weather_def windy_metar_def sample_metar_def bare_metar_def
          metar_step_def null_template_def sky_layer_def)
  have "\<exists>w. refresh_cycle default_config world0 disp_env = Inr w"
    by (rule display_cycle_succeeds [OF cond]) (simp_all add: disp_env_def default_config_def)
  then obtain w where w: "refresh_cycle default_config world0 disp_env = Inr w" ..
  have "live_threads default_config w = []"
    using display_cycle_joins_all [OF w] by (simp add: disp_env_def world0_def)
  with w show ?thesis by blast
qed

end
